theory Spec2Isabelle
  imports Main "HOL-Library.Word"
begin

unbundle bit_operations_syntax

section \<open>Python strings\<close>

text \<open>
  The script \<^verbatim>\<open>steps/flat2elisa.py\<close> is modelled as Python 3 runs it (its Python 2 branches
  are dead there). A Python 3 \<open>str\<close> is a sequence of Unicode code points, so \<open>len\<close>
  is the length of the list. Literals of the script are written with \<open>lit\<close>; in numbers,
  46 is the full stop, 47 the slash, 95 the underscore, 10 the newline, 32 the space,
  38 the ampersand, 60 and 62 the angle brackets, 34 the double quote.
\<close>

type_synonym codepoint = nat
type_synonym ustr = "codepoint list"

definition lit :: "string \<Rightarrow> ustr" where
  "lit s = map of_char s"

definition isspace :: "codepoint \<Rightarrow> bool" where
  \<comment> \<open>\<open>str.isspace\<close> on one code point: the characters \<open>str.strip()\<close> removes.\<close>
  "isspace c \<longleftrightarrow>
     (9 \<le> c \<and> c \<le> 13) \<or> (28 \<le> c \<and> c \<le> 32) \<or> c = 133 \<or> c = 160 \<or> c = 5760 \<or>
     (8192 \<le> c \<and> c \<le> 8202) \<or> c = 8232 \<or> c = 8233 \<or> c = 8239 \<or> c = 8287 \<or> c = 12288"

definition strip :: "ustr \<Rightarrow> ustr" where
  "strip s = rev (dropWhile isspace (rev (dropWhile isspace s)))"

fun py_split :: "codepoint \<Rightarrow> ustr \<Rightarrow> ustr list" where
  \<comment> \<open>\<open>s.split(sep)\<close> for a one-character separator: empty fields are kept.\<close>
  "py_split sep [] = [[]]"
| "py_split sep (c # cs) =
     (if c = sep then [] # py_split sep cs
      else case py_split sep cs of
             [] \<Rightarrow> [[c]]
           | t # ts \<Rightarrow> (c # t) # ts)"

definition basename :: "ustr \<Rightarrow> ustr" where
  \<comment> \<open>\<open>os.path.basename\<close>: what follows the last slash.\<close>
  "basename p = rev (takeWhile (\<lambda>c. c \<noteq> 47) (rev p))"

definition os_path_join :: "ustr \<Rightarrow> ustr \<Rightarrow> ustr" where
  \<comment> \<open>\<open>posixpath.join\<close> of two components.\<close>
  "os_path_join a b =
     (if take 1 b = [47] then b
      else if a = [] \<or> last a = 47 then a @ b
      else a @ [47] @ b)"

fun str_nat :: "nat \<Rightarrow> ustr" where
  "str_nat n = (if n < 10 then [48 + n] else str_nat (n div 10) @ [48 + n mod 10])"

declare str_nat.simps [simp del]

definition str_int :: "int \<Rightarrow> ustr" where
  \<comment> \<open>\<open>str(i)\<close> of a Python int.\<close>
  "str_int i = (if i < 0 then 45 # str_nat (nat (- i)) else str_nat (nat i))"

definition utf8_char :: "codepoint \<Rightarrow> 8 word list option" where
  \<comment> \<open>One code point in UTF-8; a surrogate has no encoding (UnicodeEncodeError).\<close>
  "utf8_char c =
     (if c < 0x80 then Some [of_nat c]
      else if c < 0x800 then Some [of_nat (0xC0 + c div 64), of_nat (0x80 + c mod 64)]
      else if 0xD800 \<le> c \<and> c < 0xE000 then None
      else if c < 0x10000 then
        Some [of_nat (0xE0 + c div 4096), of_nat (0x80 + c div 64 mod 64), of_nat (0x80 + c mod 64)]
      else if c < 0x110000 then
        Some [of_nat (0xF0 + c div 262144), of_nat (0x80 + c div 4096 mod 64),
              of_nat (0x80 + c div 64 mod 64), of_nat (0x80 + c mod 64)]
      else None)"

fun utf8_encode :: "ustr \<Rightarrow> 8 word list option" where
  \<comment> \<open>\<open>s.encode('utf-8')\<close>; \<open>None\<close> where Python raises.\<close>
  "utf8_encode [] = Some []"
| "utf8_encode (c # cs) =
     (case utf8_char c of
        None \<Rightarrow> None
      | Some bs \<Rightarrow> (case utf8_encode cs of None \<Rightarrow> None | Some rest \<Rightarrow> Some (bs @ rest)))"

section \<open>MD5 (\<open>hashlib.md5\<close>, RFC 1321)\<close>

definition md5_K :: "32 word list" where
  "md5_K = [
     0xd76aa478, 0xe8c7b756, 0x242070db, 0xc1bdceee,
     0xf57c0faf, 0x4787c62a, 0xa8304613, 0xfd469501,
     0x698098d8, 0x8b44f7af, 0xffff5bb1, 0x895cd7be,
     0x6b901122, 0xfd987193, 0xa679438e, 0x49b40821,
     0xf61e2562, 0xc040b340, 0x265e5a51, 0xe9b6c7aa,
     0xd62f105d, 0x02441453, 0xd8a1e681, 0xe7d3fbc8,
     0x21e1cde6, 0xc33707d6, 0xf4d50d87, 0x455a14ed,
     0xa9e3e905, 0xfcefa3f8, 0x676f02d9, 0x8d2a4c8a,
     0xfffa3942, 0x8771f681, 0x6d9d6122, 0xfde5380c,
     0xa4beea44, 0x4bdecfa9, 0xf6bb4b60, 0xbebfbc70,
     0x289b7ec6, 0xeaa127fa, 0xd4ef3085, 0x04881d05,
     0xd9d4d039, 0xe6db99e5, 0x1fa27cf8, 0xc4ac5665,
     0xf4292244, 0x432aff97, 0xab9423a7, 0xfc93a039,
     0x655b59c3, 0x8f0ccc92, 0xffeff47d, 0x85845dd1,
     0x6fa87e4f, 0xfe2ce6e0, 0xa3014314, 0x4e0811a1,
     0xf7537e82, 0xbd3af235, 0x2ad7d2bb, 0xeb86d391]"

definition md5_S :: "nat list" where
  "md5_S = [7, 12, 17, 22, 7, 12, 17, 22, 7, 12, 17, 22, 7, 12, 17, 22,
            5, 9, 14, 20, 5, 9, 14, 20, 5, 9, 14, 20, 5, 9, 14, 20,
            4, 11, 16, 23, 4, 11, 16, 23, 4, 11, 16, 23, 4, 11, 16, 23,
            6, 10, 15, 21, 6, 10, 15, 21, 6, 10, 15, 21, 6, 10, 15, 21]"

definition rotl32 :: "32 word \<Rightarrow> nat \<Rightarrow> 32 word" where
  "rotl32 x n = push_bit n x OR drop_bit (32 - n) x"

type_synonym md5_state = "32 word \<times> 32 word \<times> 32 word \<times> 32 word"

definition md5_round :: "32 word list \<Rightarrow> md5_state \<Rightarrow> nat \<Rightarrow> md5_state" where
  "md5_round m st i =
     (case st of (a, b, c, d) \<Rightarrow>
        let (f, g) =
              (if i < 16 then ((b AND c) OR (NOT b AND d), i)
               else if i < 32 then ((d AND b) OR (NOT d AND c), (5 * i + 1) mod 16)
               else if i < 48 then (b XOR c XOR d, (3 * i + 5) mod 16)
               else (c XOR (b OR NOT d), (7 * i) mod 16));
            f' = f + a + md5_K ! i + m ! g
        in (d, b + rotl32 f' (md5_S ! i), b, c))"

fun le_word32 :: "8 word list \<Rightarrow> 32 word" where
  "le_word32 [] = 0"
| "le_word32 (b # bs) = ucast b OR push_bit 8 (le_word32 bs)"

fun chunk_words :: "nat \<Rightarrow> 8 word list \<Rightarrow> 32 word list" where
  "chunk_words 0 bs = []"
| "chunk_words (Suc n) bs = le_word32 (take 4 bs) # chunk_words n (drop 4 bs)"

definition md5_block :: "md5_state \<Rightarrow> 8 word list \<Rightarrow> md5_state" where
  "md5_block st blk =
     (case st of (a0, b0, c0, d0) \<Rightarrow>
        case foldl (md5_round (chunk_words 16 blk)) st [0..<64] of (a, b, c, d) \<Rightarrow>
          (a0 + a, b0 + b, c0 + c, d0 + d))"

fun md5_blocks :: "nat \<Rightarrow> md5_state \<Rightarrow> 8 word list \<Rightarrow> md5_state" where
  "md5_blocks 0 st bs = st"
| "md5_blocks (Suc n) st bs = md5_blocks n (md5_block st (take 64 bs)) (drop 64 bs)"

definition le_bytes :: "nat \<Rightarrow> 'a::len word \<Rightarrow> 8 word list" where
  "le_bytes k w = map (\<lambda>i. ucast (drop_bit (8 * i) w)) [0..<k]"

definition md5_pad :: "8 word list \<Rightarrow> 8 word list" where
  "md5_pad msg =
     (let n = length msg
      in msg @ [0x80] @ replicate ((119 - n mod 64) mod 64) 0
             @ le_bytes 8 (8 * of_nat n :: 64 word))"

definition md5 :: "8 word list \<Rightarrow> 8 word list" where
  "md5 msg =
     (let p = md5_pad msg
      in case md5_blocks (length p div 64) (0x67452301, 0xefcdab89, 0x98badcfe, 0x10325476) p
         of (a, b, c, d) \<Rightarrow> concat (map (le_bytes 4) [a, b, c, d]))"

definition hexdigit :: "nat \<Rightarrow> codepoint" where
  "hexdigit n = (if n < 10 then 48 + n else 87 + n)"

definition hexlify :: "8 word list \<Rightarrow> ustr" where
  \<comment> \<open>\<open>hexdigest()\<close>: two lowercase hexadecimal digits per byte.\<close>
  "hexlify bs = concat (map (\<lambda>b. [hexdigit (unat b div 16), hexdigit (unat b mod 16)]) bs)"

section \<open>Element trees and their serialisation (\<open>lxml.etree\<close>)\<close>

text \<open>
  An element as the script builds it through \<open>ET.Element\<close>, \<open>ET.SubElement\<close>,
  \<open>set\<close> and \<open>.text\<close>: a tag, the attributes in insertion order, the text and the
  children. Tails are never set by the script.
\<close>

datatype element =
  Element (tag: ustr) (attrib: "(ustr \<times> ustr) list") (etext: "ustr option") (children: "element list")

definition xml_char_ok :: "codepoint \<Rightarrow> bool" where
  "xml_char_ok c \<longleftrightarrow> (c = 9 \<or> c = 10 \<or> c = 13 \<or> 32 \<le> c) \<and> c \<noteq> 0xFFFE \<and> c \<noteq> 0xFFFF"

definition lxml_valid :: "ustr \<Rightarrow> bool" where
  \<comment> \<open>The check lxml applies to every attribute value and text it is given; a string that
      fails it raises ValueError ("All strings must be XML compatible").\<close>
  "lxml_valid s \<longleftrightarrow> utf8_encode s \<noteq> None \<and> list_all xml_char_ok s"

definition escape_text_char :: "codepoint \<Rightarrow> ustr" where
  "escape_text_char c =
     (if c = 38 then lit ''&amp;''
      else if c = 60 then lit ''&lt;''
      else if c = 62 then lit ''&gt;''
      else if c = 13 then lit ''&#13;''
      else [c])"

definition escape_text :: "ustr \<Rightarrow> ustr" where
  "escape_text s = concat (map escape_text_char s)"

definition escape_attr_char :: "codepoint \<Rightarrow> ustr" where
  "escape_attr_char c =
     (if c = 38 then lit ''&amp;''
      else if c = 60 then lit ''&lt;''
      else if c = 62 then lit ''&gt;''
      else if c = 34 then lit ''&quot;''
      else if c = 9 then lit ''&#9;''
      else if c = 10 then lit ''&#10;''
      else if c = 13 then lit ''&#13;''
      else [c])"

definition escape_attr :: "ustr \<Rightarrow> ustr" where
  "escape_attr s = concat (map escape_attr_char s)"

definition attr_text :: "ustr \<times> ustr \<Rightarrow> ustr" where
  \<open>attr_text kv = lit '' '' @ fst kv @ lit ''="'' @ escape_attr (snd kv) @ lit ''"''\<close>

definition indent :: "bool \<Rightarrow> nat \<Rightarrow> ustr" where
  "indent fmt level = (if fmt then replicate (2 * level) 32 else [])"

definition newline :: "bool \<Rightarrow> ustr" where
  "newline fmt = (if fmt then [10] else [])"

fun dump_node :: "bool \<Rightarrow> nat \<Rightarrow> element \<Rightarrow> ustr" where
  \<comment> \<open>The serialiser behind \<open>ET.tostring\<close>: an element with a text node is written on one
      line, one with element children only is indented by two spaces a level when
      \<open>pretty_print\<close> is on, an empty one is self-closing.\<close>
  "dump_node fmt level (Element t atts txt cs) =
     (if txt = None \<and> cs = [] then lit ''<'' @ t @ concat (map attr_text atts) @ lit ''/>''
      else
        lit ''<'' @ t @ concat (map attr_text atts) @ lit ''>''
        @ (case txt of None \<Rightarrow> [] | Some s \<Rightarrow> escape_text s)
        @ newline (fmt \<and> txt = None)
        @ concat (map (\<lambda>c. indent (fmt \<and> txt = None) (Suc level)
                            @ dump_node (fmt \<and> txt = None) (Suc level) c
                            @ newline (fmt \<and> txt = None)) cs)
        @ indent (fmt \<and> txt = None) level
        @ lit ''</'' @ t @ lit ''>'')"

definition tostring :: "element \<Rightarrow> ustr" where
  \<comment> \<open>\<open>ET.tostring(e, pretty_print=True, encoding='utf-8', xml_declaration=False).decode('utf-8')\<close>:
      the text of the serialisation, with the newline pretty printing adds after the root.\<close>
  "tostring e = dump_node True 0 e @ [10]"

section \<open>The file system and the streams\<close>

text \<open>
  The three streams hold the text written to them. The output destination is standard
  output unless \<open>--outfile\<close> names a file; the streams encode their text as UTF-8. A file
  opened by the script raises UnicodeEncodeError for a text UTF-8 cannot encode (a lone
  surrogate, as Python keeps an undecodable byte of a file name or an argument). Standard
  output does so when it is strict (a UTF-8 locale) and writes the byte back when it is not
  (the C locale); which of the two is a parameter \<open>strict\<close> of the model. The error stream
  never raises. A file whose name ends in \<open>.gz\<close> is written through \<open>gzip.open\<close>: it holds a
  gzip member whose header carries the name and the time of the run.

  What the script asks of a path. A regular file carries the lines its iteration yields
  and whether an error is raised after them (a failure to open or to decode; an open
  failure is the empty list with the flag set). A directory carries its listing. A path
  that exists and is neither (a device, an unreadable directory) makes \<open>os.listdir\<close>
  raise.
\<close>

datatype node = Missing | Regular "ustr list" bool | Directory "ustr list" | Unlistable

type_synonym filesystem = "ustr \<Rightarrow> node"

definition os_path_exists :: "filesystem \<Rightarrow> ustr \<Rightarrow> bool" where
  "os_path_exists fs p \<longleftrightarrow> fs p \<noteq> Missing"

definition os_path_isfile :: "filesystem \<Rightarrow> ustr \<Rightarrow> bool" where
  "os_path_isfile fs p \<longleftrightarrow> (case fs p of Regular ls e \<Rightarrow> True | _ \<Rightarrow> False)"

definition os_listdir :: "filesystem \<Rightarrow> ustr \<Rightarrow> ustr list option" where
  "os_listdir fs p = (case fs p of Directory names \<Rightarrow> Some names | _ \<Rightarrow> None)"

definition readlines :: "filesystem \<Rightarrow> ustr \<Rightarrow> ustr list \<times> bool" where
  \<comment> \<open>\<open>prepfile(infile, 'r')\<close> and its iteration.\<close>
  "readlines fs p = (case fs p of Regular ls e \<Rightarrow> (ls, e) | _ \<Rightarrow> ([], True))"

datatype error = NoInfiles | ListdirError ustr | UnicodeEncodeError

datatype dest = Stdout | OutFile ustr

record streams =
  stdout :: ustr
  filedata :: ustr
  stderr :: ustr

definition no_output :: streams where
  "no_output = \<lparr>stdout = [], filedata = [], stderr = []\<rparr>"

definition outfile_write :: "dest \<Rightarrow> ustr \<Rightarrow> streams \<Rightarrow> streams" where
  \<comment> \<open>\<open>outfile.write(s)\<close>: \<open>outfile\<close> is \<open>sys.stdout\<close> unless \<open>--outfile\<close> names a file.\<close>
  "outfile_write d s st =
     (case d of Stdout \<Rightarrow> st\<lparr>stdout := stdout st @ s\<rparr>
              | OutFile name \<Rightarrow> st\<lparr>filedata := filedata st @ s\<rparr>)"

definition stderr_write :: "ustr \<Rightarrow> streams \<Rightarrow> streams" where
  "stderr_write s st = st\<lparr>stderr := stderr st @ s\<rparr>"

definition print :: "ustr \<Rightarrow> streams \<Rightarrow> streams" where
  "print s st = st\<lparr>stdout := stdout st @ s @ [10]\<rparr>"

definition output_of :: "dest \<Rightarrow> streams \<Rightarrow> ustr" where
  \<comment> \<open>The text written to the output destination.\<close>
  "output_of d st = (case d of Stdout \<Rightarrow> stdout st | OutFile name \<Rightarrow> filedata st)"

definition encodable :: "ustr \<Rightarrow> bool" where
  "encodable s \<longleftrightarrow> utf8_encode s \<noteq> None"

definition stream_accepts :: "bool \<Rightarrow> dest \<Rightarrow> ustr \<Rightarrow> bool" where
  \<comment> \<open>Whether a write of \<open>s\<close> to the destination returns; otherwise it raises
      UnicodeEncodeError and nothing of \<open>s\<close> is written.\<close>
  "stream_accepts strict d s \<longleftrightarrow> (d = Stdout \<and> \<not> strict) \<or> encodable s"

definition checked_write :: "bool \<Rightarrow> dest \<Rightarrow> ustr \<Rightarrow> streams \<Rightarrow> error + streams" where
  \<comment> \<open>\<open>outfile.write(s)\<close> outside a \<open>try\<close> block.\<close>
  "checked_write strict d s st =
     (if stream_accepts strict d s then Inr (outfile_write d s st) else Inl UnicodeEncodeError)"

definition checked_print :: "bool \<Rightarrow> ustr \<Rightarrow> streams \<Rightarrow> error + streams" where
  \<comment> \<open>\<open>print(s)\<close> outside a \<open>try\<close> block.\<close>
  "checked_print strict s st =
     (if stream_accepts strict Stdout s then Inr (print s st) else Inl UnicodeEncodeError)"

definition is_gz :: "ustr \<Rightarrow> bool" where
  \<comment> \<open>\<open>name.endswith(".gz")\<close>, line 39.\<close>
  "is_gz name \<longleftrightarrow> 3 \<le> length name \<and> drop (length name - 3) name = lit ''.gz''"

definition dest_name :: "dest \<Rightarrow> ustr" where
  \<comment> \<open>\<open>fh.name\<close>, line 39.\<close>
  "dest_name d = (case d of Stdout \<Rightarrow> lit ''<stdout>'' | OutFile name \<Rightarrow> name)"

datatype artifact = Text ustr | Gzip ustr nat ustr

definition artifact_of :: "nat \<Rightarrow> dest \<Rightarrow> streams \<Rightarrow> artifact" where
  \<comment> \<open>What the output destination holds after a run at time \<open>now\<close>: the encoding of the
      text written, or for a \<open>.gz\<close> name the gzip member made of the name, the time and the
      text.\<close>
  "artifact_of now d st =
     (if is_gz (dest_name d) then Gzip (dest_name d) now (output_of d st)
      else Text (output_of d st))"

section \<open>The script\<close>

record args =
  debug :: bool
  infiles :: "ustr list option"
  outfile :: dest
  direction :: ustr
  language :: ustr

definition fullidfields :: "ustr list" where
  "fullidfields = [lit ''SOURCE_LANGUAGE'', lit ''GENRE'', lit ''PROVENANCE'', lit ''DATE'',
                   lit ''INDEX_ID'']"

fun listdir_loop :: "filesystem \<Rightarrow> ustr \<Rightarrow> ustr list \<Rightarrow> ustr list \<Rightarrow> ustr list" where
  "listdir_loop fs entry [] infilenames = infilenames"
| "listdir_loop fs entry (filename # rest) infilenames =
     (let file = os_path_join entry filename
      in listdir_loop fs entry rest
           (if os_path_isfile fs file then infilenames @ [file] else infilenames))"

fun resolve_loop ::
  "filesystem \<Rightarrow> ustr list \<Rightarrow> ustr list \<Rightarrow> streams \<Rightarrow> error + (ustr list \<times> streams)" where
  \<comment> \<open>Lines 84 to 94: the loop over \<open>args.infiles\<close> that fills \<open>infilenames\<close>.\<close>
  "resolve_loop fs [] infilenames st = Inr (infilenames, st)"
| "resolve_loop fs (entry # rest) infilenames st =
     (if \<not> os_path_exists fs entry then
        resolve_loop fs rest infilenames (stderr_write (entry @ lit '' not found; skipping\<newline>'') st)
      else if os_path_isfile fs entry then
        resolve_loop fs rest (infilenames @ [entry]) st
      else case os_listdir fs entry of
             None \<Rightarrow> Inl (ListdirError entry)
           | Some names \<Rightarrow> resolve_loop fs rest (listdir_loop fs entry names infilenames) st)"

definition parse_name :: "ustr \<Rightarrow> (ustr \<times> ustr list) option" where
  \<comment> \<open>Lines 99 to 106: \<open>None\<close> where the bare \<open>except\<close> is entered.\<close>
  "parse_name infile =
     (case py_split 46 (basename infile) of
        [] \<Rightarrow> None
      | fullid # _ \<Rightarrow>
          (let idtoks = py_split 95 fullid
           in if length idtoks \<noteq> length fullidfields then None else Some (fullid, idtoks)))"

fun write_fields ::
  "bool \<Rightarrow> dest \<Rightarrow> (ustr \<times> ustr) list \<Rightarrow> streams \<Rightarrow> error + streams" where
  \<comment> \<open>Lines 108 and 109.\<close>
  "write_fields strict d [] st = Inr st"
| "write_fields strict d ((label, val) # rest) st =
     (case checked_write strict d
             (lit ''  <'' @ label @ lit ''>'' @ val @ lit ''</'' @ label @ lit ''>\<newline>'') st of
        Inl e \<Rightarrow> Inl e
      | Inr st' \<Rightarrow> write_fields strict d rest st')"

definition make_segment ::
  "(ustr \<Rightarrow> bool) \<Rightarrow> ustr \<Rightarrow> ustr \<Rightarrow> nat \<Rightarrow> int \<Rightarrow> ustr \<Rightarrow> (element \<times> int) option" where
  \<comment> \<open>Lines 114 to 131, one pass of the loop body: the SEGMENT element and the next
      \<open>currstart\<close>, or \<open>None\<close> where a call raises (lxml refusing a string, as \<open>xml_ok\<close>
      decides, or \<open>encode\<close> failing). lxml encodes a string as UTF-8 before it checks it,
      so the serialisation of an element it built is text every stream encodes.\<close>
  "make_segment xml_ok infile fullid ln currstart raw =
     (let line = strip raw;
          currend = currstart + int (length line) - 1;
          atts = [(lit ''id'', fullid @ lit ''.'' @ str_nat ln),
                  (lit ''start_char'', str_int currstart),
                  (lit ''end_char'', str_int currend)]
      in if \<not> list_all (\<lambda>kv. xml_ok (snd kv)) atts then None
         else case utf8_encode line of
                None \<Rightarrow> None
              | Some bytes \<Rightarrow>
                  (let subelements =
                         [(lit ''FULL_ID_SOURCE'', fullid),
                          (lit ''ORIG_SEG_ID'', lit ''segment-'' @ str_nat ln),
                          (lit ''ORIG_FILENAME'', basename infile),
                          (lit ''MD5_HASH_SOURCE'', hexlify (md5 bytes)),
                          (lit ''ORIG_RAW_SOURCE'', line)]
                   in if \<not> list_all (\<lambda>kv. xml_ok (snd kv)) subelements then None
                      else Some (Element (lit ''SEGMENT'') [] None
                                   [Element (lit ''SOURCE'') atts None
                                      (map (\<lambda>kv. Element (fst kv) [] (Some (snd kv)) [])
                                         subelements)],
                                 currend + 2)))"

fun segment_loop ::
  "(ustr \<Rightarrow> bool) \<Rightarrow> dest \<Rightarrow> ustr \<Rightarrow> ustr \<Rightarrow> nat \<Rightarrow> int \<Rightarrow> ustr list \<Rightarrow> streams
     \<Rightarrow> bool \<times> streams" where
  \<comment> \<open>Lines 113 to 134: the loop over the lines; the flag is False where it was left by an
      exception.\<close>
  "segment_loop xml_ok d infile fullid ln currstart [] st = (True, st)"
| "segment_loop xml_ok d infile fullid ln currstart (raw # rest) st =
     (case make_segment xml_ok infile fullid ln currstart raw of
        None \<Rightarrow> (False, st)
      | Some (segroot, next) \<Rightarrow>
          segment_loop xml_ok d infile fullid (Suc ln) next rest
            (outfile_write d (tostring segroot) st))"

definition process_file ::
  "bool \<Rightarrow> (ustr \<Rightarrow> bool) \<Rightarrow> filesystem \<Rightarrow> args \<Rightarrow> ustr \<Rightarrow> streams \<Rightarrow> error + streams" where
  \<comment> \<open>Lines 99 to 138: the body of the loop over \<open>infilenames\<close>. The writes of lines 107 to
      110 are outside both \<open>try\<close> blocks: \<open>Inl\<close> where one of them raises.\<close>
  \<open>process_file strict xml_ok fs a infile st =
     (case parse_name infile of
        None \<Rightarrow>
          Inr (stderr_write
                 (infile @ lit '' is not in proper naming convention; skipping\<newline>'') st)
      | Some (fullid, idtoks) \<Rightarrow>
          (case checked_write strict (outfile a)
                  (lit ''<DOCUMENT id="'' @ fullid @ lit ''">\<newline>'') st of
             Inl e \<Rightarrow> Inl e
           | Inr st1 \<Rightarrow>
               (case write_fields strict (outfile a) (zip fullidfields idtoks) st1 of
                  Inl e \<Rightarrow> Inl e
                | Inr st2 \<Rightarrow>
                    (case checked_write strict (outfile a)
                            (lit ''  <DIRECTION>'' @ direction a @ lit ''</DIRECTION>\<newline>'') st2 of
                       Inl e \<Rightarrow> Inl e
                     | Inr st3 \<Rightarrow>
                         (let (finished, st4) =
                                segment_loop xml_ok (outfile a) infile fullid 0 0
                                  (fst (readlines fs infile)) st3;
                              st5 = (if finished \<and> \<not> snd (readlines fs infile) then st4
                                     else stderr_write (infile @ lit '' had a problem.\<newline>'') st4)
                          in Inr (outfile_write (outfile a) (lit ''</DOCUMENT>\<newline>'') st5))))))\<close>

fun process_files ::
  "bool \<Rightarrow> (ustr \<Rightarrow> bool) \<Rightarrow> filesystem \<Rightarrow> args \<Rightarrow> ustr list \<Rightarrow> streams \<Rightarrow> error + streams" where
  "process_files strict xml_ok fs a [] st = Inr st"
| "process_files strict xml_ok fs a (infile # rest) st =
     (case process_file strict xml_ok fs a infile st of
        Inl e \<Rightarrow> Inl e
      | Inr st' \<Rightarrow> process_files strict xml_ok fs a rest st')"

definition main ::
  "bool \<Rightarrow> (ustr \<Rightarrow> bool) \<Rightarrow> filesystem \<Rightarrow> ustr \<Rightarrow> args \<Rightarrow> error + streams" where
  \<comment> \<open>Lines 71 to 139, after the arguments are parsed. \<open>workdir\<close> is the name
      \<open>tempfile.mkdtemp\<close> returns; \<open>Inl\<close> is an exception that leaves the script.\<close>
  \<open>main strict xml_ok fs workdir a =
     (case (if debug a then checked_print strict workdir no_output else Inr no_output) of
        Inl e \<Rightarrow> Inl e
      | Inr st0 \<Rightarrow>
          (case infiles a of
             None \<Rightarrow> Inl NoInfiles
           | Some entries \<Rightarrow>
               (case resolve_loop fs entries [] st0 of
                  Inl e \<Rightarrow> Inl e
                | Inr (infilenames, st1) \<Rightarrow>
                    (let st2 = outfile_write (outfile a)
                                 (lit ''<?xml version="1.0" encoding="UTF-8"?>\<newline>'') st1;
                         st3 = outfile_write (outfile a)
                                 (lit ''<!DOCTYPE ELISA_LRLP_CORPUS SYSTEM "elisa.lrlp.v1.1.dtd">\<newline>'')
                                 st2
                     in case checked_write strict (outfile a)
                               (lit ''<ELISA_LRLP_CORPUS source_language="'' @ language a
                                  @ lit ''">\<newline>'') st3 of
                          Inl e \<Rightarrow> Inl e
                        | Inr st4 \<Rightarrow>
                            (case process_files strict xml_ok fs a infilenames st4 of
                               Inl e \<Rightarrow> Inl e
                             | Inr st5 \<Rightarrow>
                                 Inr (outfile_write (outfile a)
                                        (lit ''</ELISA_LRLP_CORPUS>\<newline>'') st5))))))\<close>

section \<open>Reading character data back\<close>

fun xml_unescape :: "ustr \<Rightarrow> ustr" where
  \<comment> \<open>What an XML parser makes of character data: the references the serialiser writes
      are resolved, every other character stands for itself.\<close>
  "xml_unescape [] = []"
| "xml_unescape (c # s) =
     (if c = 38 \<and> take 4 s = lit ''amp;'' then 38 # xml_unescape (drop 4 s)
      else if c = 38 \<and> take 3 s = lit ''lt;'' then 60 # xml_unescape (drop 3 s)
      else if c = 38 \<and> take 3 s = lit ''gt;'' then 62 # xml_unescape (drop 3 s)
      else if c = 38 \<and> take 5 s = lit ''quot;'' then 34 # xml_unescape (drop 5 s)
      else if c = 38 \<and> take 4 s = lit ''#13;'' then 13 # xml_unescape (drop 4 s)
      else if c = 38 \<and> take 4 s = lit ''#10;'' then 10 # xml_unescape (drop 4 s)
      else if c = 38 \<and> take 3 s = lit ''#9;'' then 9 # xml_unescape (drop 3 s)
      else c # xml_unescape s)"

section \<open>What the loops compute\<close>

text \<open>
  The loops of the script append to streams. The functions of this section give, for each
  loop, the text it appends and the list it builds, so that properties can be stated about
  the text of the output.
\<close>

definition emit :: "dest \<Rightarrow> ustr \<Rightarrow> ustr \<Rightarrow> streams \<Rightarrow> streams" where
  \<comment> \<open>Append \<open>out\<close> to the output destination and \<open>err\<close> to the error stream.\<close>
  "emit d out err st = stderr_write err (outfile_write d out st)"

fun segments :: "(ustr \<Rightarrow> bool) \<Rightarrow> ustr \<Rightarrow> ustr \<Rightarrow> nat \<Rightarrow> int \<Rightarrow> ustr list \<Rightarrow> element list" where
  \<comment> \<open>The SEGMENT elements the loop over the lines serialises, in order.\<close>
  "segments xml_ok infile fullid ln currstart [] = []"
| "segments xml_ok infile fullid ln currstart (raw # rest) =
     (case make_segment xml_ok infile fullid ln currstart raw of
        None \<Rightarrow> []
      | Some (segroot, next) \<Rightarrow> segroot # segments xml_ok infile fullid (Suc ln) next rest)"

fun lines_ok :: "(ustr \<Rightarrow> bool) \<Rightarrow> ustr \<Rightarrow> ustr \<Rightarrow> nat \<Rightarrow> int \<Rightarrow> ustr list \<Rightarrow> bool" where
  \<comment> \<open>Whether every line gets its segment (no call of the loop body raises).\<close>
  "lines_ok xml_ok infile fullid ln currstart [] = True"
| "lines_ok xml_ok infile fullid ln currstart (raw # rest) =
     (case make_segment xml_ok infile fullid ln currstart raw of
        None \<Rightarrow> False
      | Some (segroot, next) \<Rightarrow> lines_ok xml_ok infile fullid (Suc ln) next rest)"

definition field_text :: "ustr \<times> ustr \<Rightarrow> ustr" where
  "field_text kv =
     lit ''  <'' @ fst kv @ lit ''>'' @ snd kv @ lit ''</'' @ fst kv @ lit ''>\<newline>''"

definition document_head :: "args \<Rightarrow> ustr \<Rightarrow> ustr list \<Rightarrow> ustr" where
  \<open>document_head a fullid idtoks =
     lit ''<DOCUMENT id="'' @ fullid @ lit ''">\<newline>''
     @ concat (map field_text (zip fullidfields idtoks))
     @ lit ''  <DIRECTION>'' @ direction a @ lit ''</DIRECTION>\<newline>''\<close>

definition file_failed :: "(ustr \<Rightarrow> bool) \<Rightarrow> filesystem \<Rightarrow> ustr \<Rightarrow> ustr \<Rightarrow> bool" where
  \<comment> \<open>Whether the second \<open>except\<close> is entered for a file with a valid name.\<close>
  "file_failed xml_ok fs infile fullid \<longleftrightarrow>
     \<not> lines_ok xml_ok infile fullid 0 0 (fst (readlines fs infile)) \<or> snd (readlines fs infile)"

definition document_text :: "(ustr \<Rightarrow> bool) \<Rightarrow> filesystem \<Rightarrow> args \<Rightarrow> ustr \<Rightarrow> ustr" where
  \<comment> \<open>What one pass of the loop over the files writes to the output.\<close>
  "document_text xml_ok fs a infile =
     (case parse_name infile of
        None \<Rightarrow> []
      | Some (fullid, idtoks) \<Rightarrow>
          document_head a fullid idtoks
          @ concat (map tostring (segments xml_ok infile fullid 0 0 (fst (readlines fs infile))))
          @ lit ''</DOCUMENT>\<newline>'')"

definition file_warnings :: "(ustr \<Rightarrow> bool) \<Rightarrow> filesystem \<Rightarrow> ustr \<Rightarrow> ustr" where
  \<comment> \<open>What one pass of the loop over the files writes to the error stream.\<close>
  "file_warnings xml_ok fs infile =
     (case parse_name infile of
        None \<Rightarrow> infile @ lit '' is not in proper naming convention; skipping\<newline>''
      | Some (fullid, idtoks) \<Rightarrow>
          if file_failed xml_ok fs infile fullid then infile @ lit '' had a problem.\<newline>''
          else [])"

definition contribution :: "filesystem \<Rightarrow> ustr \<Rightarrow> ustr list" where
  \<comment> \<open>The files one input path stands for, in the words of the specification: nothing
      for a path that does not exist, the path itself for a regular file, and for a
      directory the regular files among its entries, in listing order.\<close>
  "contribution fs entry =
     (case fs entry of
        Missing \<Rightarrow> []
      | Regular ls e \<Rightarrow> [entry]
      | Directory names \<Rightarrow>
          filter (os_path_isfile fs) (map (os_path_join entry) names)
      | Unlistable \<Rightarrow> [])"

definition missing_warning :: "filesystem \<Rightarrow> ustr \<Rightarrow> ustr" where
  "missing_warning fs entry =
     (if fs entry = Missing then entry @ lit '' not found; skipping\<newline>'' else [])"

definition head_text :: "args \<Rightarrow> ustr \<Rightarrow> ustr" where
  \<comment> \<open>What lines 107 to 110 write for a file, outside the \<open>try\<close> blocks.\<close>
  "head_text a infile =
     (case parse_name infile of
        None \<Rightarrow> []
      | Some (fullid, idtoks) \<Rightarrow> document_head a fullid idtoks)"

definition run_encodable :: "bool \<Rightarrow> ustr \<Rightarrow> args \<Rightarrow> ustr list \<Rightarrow> bool" where
  \<comment> \<open>Every text a run over \<open>files\<close> writes outside a \<open>try\<close> block is one its stream
      encodes: the directory name printed by \<open>--debug\<close>, the language, and the head of every
      file with a valid name.\<close>
  "run_encodable strict workdir a files \<longleftrightarrow>
     (if debug a then stream_accepts strict Stdout workdir else True)
     \<and> stream_accepts strict (outfile a) (language a)
     \<and> list_all (\<lambda>f. stream_accepts strict (outfile a) (head_text a f)) files"

definition prolog :: "args \<Rightarrow> ustr" where
  \<open>prolog a =
     lit ''<?xml version="1.0" encoding="UTF-8"?>\<newline>''
     @ lit ''<!DOCTYPE ELISA_LRLP_CORPUS SYSTEM "elisa.lrlp.v1.1.dtd">\<newline>''
     @ lit ''<ELISA_LRLP_CORPUS source_language="'' @ language a @ lit ''">\<newline>''\<close>

definition epilog :: ustr where
  "epilog = lit ''</ELISA_LRLP_CORPUS>\<newline>''"

fun cursor_at :: "ustr list \<Rightarrow> nat \<Rightarrow> int" where
  \<comment> \<open>The per-file cursor of the specification before line \<open>j\<close>: 0 at the start, and after
      a line its \<open>end_char\<close> plus 2.\<close>
  "cursor_at ls 0 = 0"
| "cursor_at ls (Suc j) = (cursor_at ls j + int (length (strip (ls ! j))) - 1) + 2"

definition source_attr :: "ustr \<Rightarrow> element \<Rightarrow> ustr option" where
  \<comment> \<open>An attribute of the SOURCE child of a SEGMENT.\<close>
  "source_attr k seg = (case children seg of [] \<Rightarrow> None | src # _ \<Rightarrow> map_of (attrib src) k)"

definition source_child_text :: "ustr \<Rightarrow> element \<Rightarrow> ustr option" where
  \<comment> \<open>The text of the first child with tag \<open>k\<close> of the SOURCE child of a SEGMENT.\<close>
  "source_child_text k seg =
     (case children seg of
        [] \<Rightarrow> None
      | src # _ \<Rightarrow> (case filter (\<lambda>c. tag c = k) (children src) of [] \<Rightarrow> None | c # _ \<Rightarrow> etext c))"

definition segment_md5 ::
  "(ustr \<Rightarrow> bool) \<Rightarrow> ustr \<Rightarrow> ustr \<Rightarrow> nat \<Rightarrow> int \<Rightarrow> ustr \<Rightarrow> ustr option" where
  \<comment> \<open>The text of MD5_HASH_SOURCE in the segment of a line, if one is built.\<close>
  "segment_md5 xml_ok infile fullid ln currstart raw =
     (case make_segment xml_ok infile fullid ln currstart raw of
        None \<Rightarrow> None
      | Some (segroot, next) \<Rightarrow> source_child_text (lit ''MD5_HASH_SOURCE'') segroot)"

definition segment_range ::
  "(ustr \<Rightarrow> bool) \<Rightarrow> ustr \<Rightarrow> ustr \<Rightarrow> ustr list \<Rightarrow> (ustr option \<times> ustr option) list" where
  \<comment> \<open>The \<open>start_char\<close> and \<open>end_char\<close> attributes of the segments of a file, in order.\<close>
  "segment_range xml_ok infile fullid ls =
     map (\<lambda>seg. (source_attr (lit ''start_char'') seg, source_attr (lit ''end_char'') seg))
       (segments xml_ok infile fullid 0 0 ls)"

section \<open>A sample file system\<close>

definition demo_odd_name :: ustr where
  \<comment> \<open>A file name with a byte that is not UTF-8, as Python holds it: the byte E9 is the
      lone surrogate U+DCE9.\<close>
  "demo_odd_name = lit ''eng_NW_caf'' @ [0xDCE9] @ lit ''_20200101_00000001.txt''"

definition demo_fs :: filesystem where
  \<comment> \<open>A directory with a well-named file, a file outside the naming convention and a
      subdirectory; a file whose reading fails after one line; a file with an ampersand in
      its name; a file with an undecodable byte in its name.\<close>
  "demo_fs p =
     (if p = lit ''in'' then
        Directory [lit ''eng_NW_abc123_20200101_00000001.txt'', lit ''notes.txt'', lit ''sub'']
      else if p = lit ''in/eng_NW_abc123_20200101_00000001.txt'' then
        Regular [lit ''Hello\<newline>'', lit ''World\<newline>''] False
      else if p = lit ''in/notes.txt'' then Regular [lit ''x\<newline>''] False
      else if p = lit ''in/sub'' then Directory [lit ''eng_NW_abc123_20200101_00000002.txt'']
      else if p = lit ''in/sub/eng_NW_abc123_20200101_00000002.txt'' then
        Regular [lit ''deep\<newline>''] False
      else if p = lit ''bad/eng_WL_x_20200101_00000003.txt'' then
        Regular [lit ''Hello\<newline>''] True
      else if p = lit ''A&B_NW_abc123_20200101_00000001.txt'' then
        Regular [lit ''Hello\<newline>''] False
      else if p = demo_odd_name then Regular [lit ''Hello\<newline>''] False
      else Missing)"

definition demo_args :: "ustr list \<Rightarrow> args" where
  "demo_args entries =
     \<lparr>debug = False, infiles = Some entries, outfile = Stdout,
      direction = lit ''fromsource'', language = lit ''eng''\<rparr>"

definition demo_debug_args :: "ustr list \<Rightarrow> args" where
  "demo_debug_args entries =
     \<lparr>debug = True, infiles = Some entries, outfile = Stdout,
      direction = lit ''fromsource'', language = lit ''eng''\<rparr>"

definition demo_file_args :: "ustr \<Rightarrow> ustr list \<Rightarrow> args" where
  "demo_file_args name entries =
     \<lparr>debug = False, infiles = Some entries, outfile = OutFile name,
      direction = lit ''fromsource'', language = lit ''eng''\<rparr>"

definition run_output ::
  "bool \<Rightarrow> (ustr \<Rightarrow> bool) \<Rightarrow> filesystem \<Rightarrow> ustr \<Rightarrow> args \<Rightarrow> ustr option" where
  \<comment> \<open>The text a run writes to its output destination; \<open>None\<close> if it ends in an
      exception.\<close>
  "run_output strict xml_ok fs workdir a =
     (case main strict xml_ok fs workdir a of
        Inl e \<Rightarrow> None
      | Inr st \<Rightarrow> Some (output_of (outfile a) st))"

definition run_artifact ::
  "nat \<Rightarrow> bool \<Rightarrow> (ustr \<Rightarrow> bool) \<Rightarrow> filesystem \<Rightarrow> ustr \<Rightarrow> args \<Rightarrow> artifact option" where
  \<comment> \<open>What a run at time \<open>now\<close> leaves in its output destination; \<open>None\<close> if it ends in an
      exception.\<close>
  "run_artifact now strict xml_ok fs workdir a =
     (case main strict xml_ok fs workdir a of
        Inl e \<Rightarrow> None
      | Inr st \<Rightarrow> Some (artifact_of now (outfile a) st))"

section \<open>The loops as text\<close>


lemma outfile_write_nil: "outfile_write d [] st = st"
  by (cases d) (simp_all add: outfile_write_def)

lemma outfile_write_twice: "outfile_write d t (outfile_write d s st) = outfile_write d (s @ t) st"
  by (cases d) (simp_all add: outfile_write_def)

lemma emit_nil: "emit d [] [] st = st"
  by (simp add: emit_def stderr_write_def outfile_write_nil)

lemma emit_emit: "emit d o2 e2 (emit d o1 e1 st) = emit d (o1 @ o2) (e1 @ e2) st"
  by (cases d) (simp_all add: emit_def stderr_write_def outfile_write_def)

lemma outfile_write_emit: "outfile_write d s st = emit d s [] st"
  by (simp add: emit_def stderr_write_def)

lemma stderr_write_emit: "stderr_write s st = emit d [] s st"
  by (simp add: emit_def outfile_write_nil)

lemma output_of_emit: "output_of d (emit d out err st) = output_of d st @ out"
  by (cases d) (simp_all add: emit_def stderr_write_def outfile_write_def output_of_def)

lemma stderr_emit: "stderr (emit d out err st) = stderr st @ err"
  by (cases d) (simp_all add: emit_def stderr_write_def outfile_write_def)

lemma segment_loop_eq:
  "segment_loop xml_ok d infile fullid ln cs ls st =
     (lines_ok xml_ok infile fullid ln cs ls,
      outfile_write d (concat (map tostring (segments xml_ok infile fullid ln cs ls))) st)"
proof (induction ls arbitrary: ln cs st)
  case Nil
  show ?case by (simp add: outfile_write_nil)
next
  case (Cons raw rest)
  show ?case
  proof (cases "make_segment xml_ok infile fullid ln cs raw")
    case None
    then show ?thesis by (simp add: outfile_write_nil)
  next
    case (Some r)
    obtain seg nxt where r: "r = (seg, nxt)" by (cases r)
    show ?thesis using Some r Cons.IH by (simp add: outfile_write_twice)
  qed
qed

lemma utf8_encode_ok: "utf8_encode s \<noteq> None \<longleftrightarrow> list_all (\<lambda>c. utf8_char c \<noteq> None) s"
  by (induction s) (auto split: option.splits)

lemma encodable_append [simp]: "encodable (s @ t) \<longleftrightarrow> encodable s \<and> encodable t"
  unfolding encodable_def utf8_encode_ok by simp

lemma encodable_Nil [simp]: "encodable []"
  by (simp add: encodable_def)

lemma utf8_char_small: "n < 256 \<Longrightarrow> utf8_char n \<noteq> None"
  by (simp add: utf8_char_def)

lemma encodable_lit [simp]: "encodable (lit s)"
proof -
  have "utf8_char (of_char c) \<noteq> None" for c :: char
    by (rule utf8_char_small) simp
  then show ?thesis
    unfolding encodable_def utf8_encode_ok by (simp add: lit_def list_all_iff)
qed

lemma stream_accepts_append [simp]:
  "stream_accepts strict d (s @ t) \<longleftrightarrow> stream_accepts strict d s \<and> stream_accepts strict d t"
  by (auto simp add: stream_accepts_def)

lemma stream_accepts_Nil [simp]: "stream_accepts strict d []"
  by (simp add: stream_accepts_def)

lemma stream_accepts_lit [simp]: "stream_accepts strict d (lit s)"
  by (simp add: stream_accepts_def)

lemma stream_accepts_concat:
  "stream_accepts strict d (concat xs) \<longleftrightarrow> list_all (stream_accepts strict d) xs"
  by (induction xs) simp_all

lemma write_fields_eq:
  "write_fields strict d kvs st =
     (if stream_accepts strict d (concat (map field_text kvs))
      then Inr (outfile_write d (concat (map field_text kvs)) st)
      else Inl UnicodeEncodeError)"
proof (induction kvs arbitrary: st)
  case Nil
  show ?case by (simp add: outfile_write_nil)
next
  case (Cons kv kvs)
  obtain k v where kv: "kv = (k, v)" by (cases kv)
  have f: "field_text (k, v) = lit ''  <'' @ k @ lit ''>'' @ v @ lit ''</'' @ k @ lit ''>\<newline>''"
    by (simp add: field_text_def)
  show ?case
    using Cons.IH by (simp add: kv f checked_write_def outfile_write_twice)
qed

lemma process_file_eq:
  "process_file strict xml_ok fs a infile st =
     (if stream_accepts strict (outfile a) (head_text a infile)
      then Inr (emit (outfile a) (document_text xml_ok fs a infile)
                  (file_warnings xml_ok fs infile) st)
      else Inl UnicodeEncodeError)"
proof (cases "parse_name infile")
  case None
  then show ?thesis
    by (simp add: process_file_def document_text_def file_warnings_def head_text_def
        stderr_write_emit [where d = "outfile a"])
next
  case (Some r)
  obtain fullid idtoks where r: "r = (fullid, idtoks)" by (cases r)
  show ?thesis
    using Some r
    by (simp add: process_file_def document_text_def file_warnings_def head_text_def
        segment_loop_eq write_fields_eq checked_write_def file_failed_def document_head_def
        Let_def outfile_write_emit stderr_write_emit [where d = "outfile a"] emit_emit)
qed

lemma process_files_eq:
  "process_files strict xml_ok fs a files st =
     (if list_all (\<lambda>f. stream_accepts strict (outfile a) (head_text a f)) files
      then Inr (emit (outfile a) (concat (map (document_text xml_ok fs a) files))
                  (concat (map (file_warnings xml_ok fs) files)) st)
      else Inl UnicodeEncodeError)"
proof (induction files arbitrary: st)
  case Nil
  show ?case by (simp add: emit_nil)
next
  case (Cons f files)
  show ?case by (simp add: Cons.IH process_file_eq emit_emit)
qed

lemma listdir_loop_eq:
  "listdir_loop fs entry names acc =
     acc @ filter (os_path_isfile fs) (map (os_path_join entry) names)"
  by (induction names arbitrary: acc) (simp_all add: Let_def)

lemma resolve_loop_eq:
  "\<forall>e \<in> set es. fs e \<noteq> Unlistable \<Longrightarrow>
   resolve_loop fs es acc st =
     Inr (acc @ concat (map (contribution fs) es),
          stderr_write (concat (map (missing_warning fs) es)) st)"
proof (induction es arbitrary: acc st)
  case Nil
  show ?case by (simp add: stderr_write_def)
next
  case (Cons e es)
  have ih: "\<And>acc st. resolve_loop fs es acc st =
     Inr (acc @ concat (map (contribution fs) es),
          stderr_write (concat (map (missing_warning fs) es)) st)"
    using Cons by simp
  have ne: "fs e \<noteq> Unlistable" using Cons.prems by simp
  show ?case
  proof (cases "fs e")
    case Missing
    have c: "contribution fs e = []" and w: "missing_warning fs e = e @ lit '' not found; skipping\<newline>''"
      using Missing by (simp_all add: contribution_def missing_warning_def)
    show ?thesis
      using Missing by (simp add: ih c w os_path_exists_def stderr_write_def)
  next
    case (Regular ls err)
    have c: "contribution fs e = [e]" and w: "missing_warning fs e = []"
      using Regular by (simp_all add: contribution_def missing_warning_def)
    show ?thesis
      using Regular by (simp add: ih c w os_path_exists_def os_path_isfile_def)
  next
    case (Directory names)
    have c: "contribution fs e = filter (os_path_isfile fs) (map (os_path_join e) names)"
      and w: "missing_warning fs e = []"
      using Directory by (simp_all add: contribution_def missing_warning_def)
    have i: "\<not> os_path_isfile fs e" "os_path_exists fs e" "os_listdir fs e = Some names"
      using Directory by (simp_all add: os_path_exists_def os_path_isfile_def os_listdir_def)
    show ?thesis
      by (simp add: ih c w i listdir_loop_eq)
  next
    case Unlistable
    then show ?thesis using ne by simp
  qed
qed

lemma main_eq:
  assumes "infiles a = Some es" and "\<forall>e \<in> set es. fs e \<noteq> Unlistable"
  shows "main strict xml_ok fs workdir a =
     (if run_encodable strict workdir a (concat (map (contribution fs) es))
      then Inr (emit (outfile a)
                  (prolog a
                   @ concat (map (document_text xml_ok fs a) (concat (map (contribution fs) es)))
                   @ epilog)
                  (concat (map (missing_warning fs) es)
                   @ concat (map (file_warnings xml_ok fs) (concat (map (contribution fs) es))))
                  (if debug a then print workdir no_output else no_output))
      else Inl UnicodeEncodeError)"
  using assms
  by (simp add: main_def run_encodable_def resolve_loop_eq process_files_eq checked_write_def
      checked_print_def prolog_def epilog_def Let_def
      outfile_write_emit stderr_write_emit [where d = "outfile a"] emit_emit)

section \<open>Segments and offsets\<close>

lemma cursor_at_Cons:
  "cursor_at (l # ls) (Suc j) - (int (length (strip l)) + 1) = cursor_at ls j"
  by (induction j) simp_all


lemma md5_hello:
  "hexlify (md5 [72, 101, 108, 108, 111]) = lit ''8b1a9953c4611296a827abf8c47804d7''"
  by code_simp

lemma make_segment_next:
  "make_segment xml_ok infile fullid ln cs raw = Some (seg, nxt) \<Longrightarrow>
     nxt = cs + int (length (strip raw)) + 1"
  by (auto simp add: make_segment_def Let_def split: if_splits option.splits)

lemma make_segment_shape:
  "make_segment xml_ok infile fullid ln cs raw = Some (seg, nxt) \<Longrightarrow>
     \<exists>bytes. utf8_encode (strip raw) = Some bytes \<and>
       seg = Element (lit ''SEGMENT'') [] None
               [Element (lit ''SOURCE'')
                  [(lit ''id'', fullid @ lit ''.'' @ str_nat ln),
                   (lit ''start_char'', str_int cs),
                   (lit ''end_char'', str_int (cs + int (length (strip raw)) - 1))]
                  None
                  [Element (lit ''FULL_ID_SOURCE'') [] (Some fullid) [],
                   Element (lit ''ORIG_SEG_ID'') [] (Some (lit ''segment-'' @ str_nat ln)) [],
                   Element (lit ''ORIG_FILENAME'') [] (Some (basename infile)) [],
                   Element (lit ''MD5_HASH_SOURCE'') [] (Some (hexlify (md5 bytes))) [],
                   Element (lit ''ORIG_RAW_SOURCE'') [] (Some (strip raw)) []]]"
  by (auto simp add: make_segment_def Let_def split: if_splits option.splits)

lemma segments_nth:
  "j < length (segments xml_ok infile fullid ln cs ls) \<Longrightarrow>
     j < length ls \<and>
     make_segment xml_ok infile fullid (ln + j) (cs + cursor_at ls j) (ls ! j) =
       Some (segments xml_ok infile fullid ln cs ls ! j, cs + cursor_at ls (Suc j))"
proof (induction ls arbitrary: ln cs j)
  case Nil
  then show ?case by simp
next
  case (Cons raw rest)
  show ?case
  proof (cases "make_segment xml_ok infile fullid ln cs raw")
    case None
    then show ?thesis using Cons.prems by simp
  next
    case (Some r)
    obtain seg nxt where r: "r = (seg, nxt)" by (cases r)
    have nxt: "nxt = cs + int (length (strip raw)) + 1"
      using Some r make_segment_next by blast
    show ?thesis
    proof (cases j)
      case 0
      then show ?thesis using Some r nxt by simp
    next
      case (Suc k)
      have k: "k < length (segments xml_ok infile fullid (Suc ln) nxt rest)"
        using Cons.prems Some r Suc by simp
      have c: "cursor_at (raw # rest) (Suc (Suc k)) = cursor_at rest (Suc k) + (int (length (strip raw)) + 1)"
        using cursor_at_Cons [of raw rest "Suc k"] by simp
      have c': "cursor_at (raw # rest) (Suc k) = cursor_at rest k + (int (length (strip raw)) + 1)"
        using cursor_at_Cons [of raw rest k] by simp
      show ?thesis
        using Cons.IH [OF k] Some r Suc nxt c c' by (simp add: add.commute add.left_commute)
    qed
  qed
qed

lemma segments_length_le: "length (segments xml_ok infile fullid ln cs ls) \<le> length ls"
  by (induction ls arbitrary: ln cs) (auto split: option.splits)

lemma segments_all:
  "lines_ok xml_ok infile fullid ln cs ls \<Longrightarrow>
     length (segments xml_ok infile fullid ln cs ls) = length ls"
  by (induction ls arbitrary: ln cs) (auto split: option.splits)


section \<open>Strings lxml accepts\<close>

lemma lxml_valid_all:
  "lxml_valid s \<longleftrightarrow> list_all (\<lambda>c. utf8_char c \<noteq> None \<and> xml_char_ok c) s"
proof -
  have "utf8_encode s \<noteq> None \<longleftrightarrow> list_all (\<lambda>c. utf8_char c \<noteq> None) s"
    by (rule utf8_encode_ok)
  then show ?thesis
    unfolding lxml_valid_def list_all_iff by blast
qed

lemma lxml_valid_append [simp]: "lxml_valid (s @ t) \<longleftrightarrow> lxml_valid s \<and> lxml_valid t"
  by (simp add: lxml_valid_all)

lemma lxml_valid_Nil [simp]: "lxml_valid []"
  by (simp add: lxml_valid_all)

lemma lxml_valid_ascii:
  "\<forall>c \<in> set s. 32 \<le> c \<and> c < 128 \<Longrightarrow> lxml_valid s"
  by (auto simp add: lxml_valid_all list_all_iff utf8_char_def xml_char_ok_def)

lemma str_nat_ascii: "\<forall>c \<in> set (str_nat n). 32 \<le> c \<and> c < 128"
proof (induction n rule: str_nat.induct)
  case (1 n)
  show ?case
  proof (cases "n < 10")
    case True
    then show ?thesis by (simp add: str_nat.simps [of n])
  next
    case False
    have "n mod 10 < 10" by simp
    then show ?thesis using False 1 by (auto simp add: str_nat.simps [of n])
  qed
qed

lemma lxml_valid_str_nat [simp]: "lxml_valid (str_nat n)"
  by (rule lxml_valid_ascii) (rule str_nat_ascii)

lemma lxml_valid_str_int [simp]: "lxml_valid (str_int i)"
proof -
  have "lxml_valid [45]" by (rule lxml_valid_ascii) simp
  then have "lxml_valid (45 # str_nat (nat (- i)))"
    using lxml_valid_append [of "[45]" "str_nat (nat (- i))"] by simp
  then show ?thesis by (simp add: str_int_def)
qed

lemma lxml_valid_lit_dot [simp]: "lxml_valid (lit ''.'')"
  by (rule lxml_valid_ascii) (simp add: lit_def)

lemma lxml_valid_lit_segment [simp]: "lxml_valid (lit ''segment-'')"
  by (rule lxml_valid_ascii) (simp add: lit_def)

lemma hexdigit_ascii: "n < 16 \<Longrightarrow> 32 \<le> hexdigit n \<and> hexdigit n < 128"
  by (simp add: hexdigit_def)

lemma lxml_valid_hexlify [simp]: "lxml_valid (hexlify bs)"
proof (rule lxml_valid_ascii, rule ballI)
  fix c assume "c \<in> set (hexlify bs)"
  then obtain b :: "8 word" where "c = hexdigit (unat b div 16) \<or> c = hexdigit (unat b mod 16)"
    by (auto simp add: hexlify_def)
  moreover have "unat b < 256" using unsigned_less [of b, where ?'a = nat] by simp
  then have "unat b div 16 < 16" by simp
  moreover have "unat b mod 16 < 16" by simp
  ultimately show "32 \<le> c \<and> c < 128" using hexdigit_ascii by blast
qed

lemma lxml_valid_encodable: "lxml_valid s \<Longrightarrow> \<exists>bytes. utf8_encode s = Some bytes"
  by (auto simp add: lxml_valid_def)

lemma make_segment_emitted:
  assumes "lxml_valid fullid" and "lxml_valid (basename infile)" and "lxml_valid (strip raw)"
  shows "make_segment lxml_valid infile fullid ln cs raw \<noteq> None"
proof -
  obtain bytes where "utf8_encode (strip raw) = Some bytes"
    using lxml_valid_encodable assms(3) by blast
  then show ?thesis
    using assms by (simp add: make_segment_def Let_def)
qed


lemma lxml_valid_Cons:
  "lxml_valid (c # s) \<longleftrightarrow> utf8_char c \<noteq> None \<and> xml_char_ok c \<and> lxml_valid s"
  by (simp add: lxml_valid_all)

lemmas eval_simps =
  lit_def strip_def isspace_def basename_def str_int_def str_nat.simps
  make_segment_def Let_def lxml_valid_Cons utf8_char_def xml_char_ok_def
  source_attr_def source_child_text_def

lemma hello_world_ranges:
  "segment_range lxml_valid (lit ''eng_NW_abc123_20200101_00000001.txt'')
     (lit ''eng_NW_abc123_20200101_00000001'') [lit ''Hello\<newline>'', lit ''World\<newline>''] =
   [(Some (lit ''0''), Some (lit ''4'')), (Some (lit ''6''), Some (lit ''10''))]"
  by (simp add: segment_range_def eval_simps)

text \<open>
  C1. The cursor of a file starts at 0; the segment of line \<open>j\<close> has \<open>start_char\<close> equal to
  the cursor and \<open>end_char\<close> equal to the cursor plus the number of code points of the
  stripped line minus 1, and the cursor then becomes \<open>end_char + 2\<close>. The loop writes
  the serialisations of exactly these segments, one for every line when no line raises.
  The lines Hello and World give (0, 4) and (6, 10).
\<close>

theorem offsets_follow_cursor:
  assumes "j < length (segments xml_ok infile fullid 0 0 ls)"
  shows "segment_loop xml_ok d infile fullid 0 0 ls st =
           (lines_ok xml_ok infile fullid 0 0 ls,
            outfile_write d (concat (map tostring (segments xml_ok infile fullid 0 0 ls))) st)
         \<and> (lines_ok xml_ok infile fullid 0 0 ls \<longrightarrow>
              length (segments xml_ok infile fullid 0 0 ls) = length ls)
         \<and> cursor_at ls 0 = 0
         \<and> source_attr (lit ''start_char'') (segments xml_ok infile fullid 0 0 ls ! j) =
              Some (str_int (cursor_at ls j))
         \<and> source_attr (lit ''end_char'') (segments xml_ok infile fullid 0 0 ls ! j) =
              Some (str_int (cursor_at ls j + int (length (strip (ls ! j))) - 1))
         \<and> cursor_at ls (Suc j) = (cursor_at ls j + int (length (strip (ls ! j))) - 1) + 2
         \<and> segment_range lxml_valid (lit ''eng_NW_abc123_20200101_00000001.txt'')
              (lit ''eng_NW_abc123_20200101_00000001'')
              [lit ''Hello\<newline>'', lit ''World\<newline>''] =
            [(Some (lit ''0''), Some (lit ''4'')), (Some (lit ''6''), Some (lit ''10''))]"
proof -
  let ?segs = "segments xml_ok infile fullid 0 0 ls"
  have "make_segment xml_ok infile fullid j (cursor_at ls j) (ls ! j) =
          Some (?segs ! j, cursor_at ls (Suc j))"
    using segments_nth [OF assms] by simp
  from make_segment_shape [OF this]
  have "source_attr (lit ''start_char'') (?segs ! j) = Some (str_int (cursor_at ls j))"
    and "source_attr (lit ''end_char'') (?segs ! j) =
           Some (str_int (cursor_at ls j + int (length (strip (ls ! j))) - 1))"
    by (auto simp add: source_attr_def lit_def)
  then show ?thesis
    using segments_all [of xml_ok infile fullid 0 0 ls]
    by (simp add: segment_loop_eq hello_world_ranges)
qed

theorem offsets_follow_cursor_witness:
  "1 < length (segments lxml_valid (lit ''f_a_b_c_d.txt'') (lit ''f_a_b_c_d'') 0 0
                 [lit ''h\<newline>'', [233, 10], []])
   \<and> source_attr (lit ''start_char'')
        (segments lxml_valid (lit ''f_a_b_c_d.txt'') (lit ''f_a_b_c_d'') 0 0
           [lit ''h\<newline>'', [233, 10], []] ! 1) = Some (lit ''2'')
   \<and> source_attr (lit ''end_char'')
        (segments lxml_valid (lit ''f_a_b_c_d.txt'') (lit ''f_a_b_c_d'') 0 0
           [lit ''h\<newline>'', [233, 10], []] ! 1) = Some (lit ''2'')
   \<and> cursor_at [lit ''h\<newline>'', [233, 10], []] 2 = 4
   \<and> utf8_encode (strip [233, 10]) = Some [195, 169]
   \<and> lines_ok lxml_valid (lit ''f_a_b_c_d.txt'') (lit ''f_a_b_c_d'') 0 0
         [lit ''h\<newline>'', [233, 10], []]
   \<and> length (segments lxml_valid (lit ''f_a_b_c_d.txt'') (lit ''f_a_b_c_d'') 0 0
                 [lit ''h\<newline>'', [233, 10], []]) =
       length [lit ''h\<newline>'', [233, 10], []]"
proof -
  let ?ls = "[lit ''h\<newline>'', [233, 10], []]"
  have h: "1 < length (segments lxml_valid (lit ''f_a_b_c_d.txt'') (lit ''f_a_b_c_d'') 0 0 ?ls)"
    by (simp add: eval_simps)
  note t = offsets_follow_cursor [OF h, of Stdout no_output]
  have c1: "cursor_at ?ls 1 = 2"
    by (simp add: eval_simps)
  have c2: "cursor_at ?ls 2 = 4"
    by (simp add: eval_simps numeral_2_eq_2)
  have e: "cursor_at ?ls 1 + int (length (strip (?ls ! 1))) - 1 = 2"
    by (simp add: eval_simps)
  have two: "str_int 2 = lit ''2''"
    by (simp add: eval_simps)
  have a: "source_attr (lit ''start_char'')
        (segments lxml_valid (lit ''f_a_b_c_d.txt'') (lit ''f_a_b_c_d'') 0 0 ?ls ! 1) =
      Some (lit ''2'')"
    using t [THEN conjunct2, THEN conjunct2, THEN conjunct2, THEN conjunct1]
    by (simp only: c1 two)
  have b: "source_attr (lit ''end_char'')
        (segments lxml_valid (lit ''f_a_b_c_d.txt'') (lit ''f_a_b_c_d'') 0 0 ?ls ! 1) =
      Some (lit ''2'')"
    using t [THEN conjunct2, THEN conjunct2, THEN conjunct2, THEN conjunct2, THEN conjunct1]
    by (simp only: e two)
  have u: "utf8_encode (strip [233, 10]) = Some [195, 169]"
    by (simp add: eval_simps)
  have l: "lines_ok lxml_valid (lit ''f_a_b_c_d.txt'') (lit ''f_a_b_c_d'') 0 0 ?ls"
    by (simp add: eval_simps)
  note n = t [THEN conjunct2, THEN conjunct1, THEN mp, OF l]
  show ?thesis
    by (intro conjI) (rule h a b c2 u l n)+
qed


section \<open>The digest\<close>

lemma md5_length: "length (md5 msg) = 16"
  by (simp add: md5_def Let_def le_bytes_def split: prod.splits)

lemma hexlify_length: "length (hexlify bs) = 2 * length bs"
  by (induction bs) (simp_all add: hexlify_def)

lemma hexdigit_lower:
  assumes "n < 16"
  shows "hexdigit n \<in> set (lit ''0123456789abcdef'')"
proof -
  have "list_all (\<lambda>k. hexdigit k \<in> set (lit ''0123456789abcdef'')) [0..<16]"
    by code_simp
  then show ?thesis
    using assms by (simp add: list_all_iff)
qed

lemma hexlify_lowercase: "list_all (\<lambda>c. c \<in> set (lit ''0123456789abcdef'')) (hexlify bs)"
  unfolding list_all_iff
proof (rule ballI)
  fix c assume "c \<in> set (hexlify bs)"
  then obtain b :: "8 word" where "c = hexdigit (unat b div 16) \<or> c = hexdigit (unat b mod 16)"
    by (auto simp add: hexlify_def)
  moreover have "unat b < 256" using unsigned_less [of b, where ?'a = nat] by simp
  then have "unat b div 16 < 16" by simp
  moreover have "unat b mod 16 < 16" by simp
  ultimately show "c \<in> set (lit ''0123456789abcdef'')" using hexdigit_lower by blast
qed

lemma segment_md5_hello:
  "segment_md5 lxml_valid (lit ''eng_NW_abc123_20200101_00000001.txt'')
     (lit ''eng_NW_abc123_20200101_00000001'') 0 0 (lit ''Hello\<newline>'') =
   Some (lit ''8b1a9953c4611296a827abf8c47804d7'')"
  by (simp add: segment_md5_def eval_simps md5_hello)

text \<open>
  C5, amended. The text of MD5_HASH_SOURCE in the segment of a line is the lowercase
  hexadecimal MD5 digest of the UTF-8 encoding of the stripped line, 32 digits long; for
  the line Hello it is 8b1a9953c4611296a827abf8c47804d7.
\<close>

theorem md5_of_stripped_line:
  assumes "make_segment xml_ok infile fullid ln cs raw = Some (seg, nxt)"
  shows "(\<exists>bytes. utf8_encode (strip raw) = Some bytes
            \<and> source_child_text (lit ''MD5_HASH_SOURCE'') seg = Some (hexlify (md5 bytes))
            \<and> length (hexlify (md5 bytes)) = 32
            \<and> list_all (\<lambda>c. c \<in> set (lit ''0123456789abcdef'')) (hexlify (md5 bytes)))
         \<and> segment_md5 lxml_valid (lit ''eng_NW_abc123_20200101_00000001.txt'')
              (lit ''eng_NW_abc123_20200101_00000001'') 0 0 (lit ''Hello\<newline>'') =
            Some (lit ''8b1a9953c4611296a827abf8c47804d7'')"
proof -
  obtain bytes where b: "utf8_encode (strip raw) = Some bytes"
    and s: "seg = Element (lit ''SEGMENT'') [] None
               [Element (lit ''SOURCE'')
                  [(lit ''id'', fullid @ lit ''.'' @ str_nat ln),
                   (lit ''start_char'', str_int cs),
                   (lit ''end_char'', str_int (cs + int (length (strip raw)) - 1))]
                  None
                  [Element (lit ''FULL_ID_SOURCE'') [] (Some fullid) [],
                   Element (lit ''ORIG_SEG_ID'') [] (Some (lit ''segment-'' @ str_nat ln)) [],
                   Element (lit ''ORIG_FILENAME'') [] (Some (basename infile)) [],
                   Element (lit ''MD5_HASH_SOURCE'') [] (Some (hexlify (md5 bytes))) [],
                   Element (lit ''ORIG_RAW_SOURCE'') [] (Some (strip raw)) []]]"
    using make_segment_shape [OF assms] by blast
  have "source_child_text (lit ''MD5_HASH_SOURCE'') seg = Some (hexlify (md5 bytes))"
    by (simp add: s source_child_text_def lit_def)
  moreover have "length (hexlify (md5 bytes)) = 32"
    by (simp add: hexlify_length md5_length)
  moreover have "list_all (\<lambda>c. c \<in> set (lit ''0123456789abcdef'')) (hexlify (md5 bytes))"
    by (rule hexlify_lowercase)
  ultimately show ?thesis
    using b segment_md5_hello by blast
qed

theorem md5_of_stripped_line_witness:
  "make_segment lxml_valid (lit ''a_b_c_d_e.txt'') (lit ''a_b_c_d_e'') 0 0 (lit '' Hello \<newline>'')
     \<noteq> None
   \<and> utf8_encode (strip (lit '' Hello \<newline>'')) = Some [72, 101, 108, 108, 111]
   \<and> segment_md5 lxml_valid (lit ''a_b_c_d_e.txt'') (lit ''a_b_c_d_e'') 0 0 (lit '' Hello \<newline>'') =
       Some (lit ''8b1a9953c4611296a827abf8c47804d7'')"
proof -
  obtain seg nxt where
    m: "make_segment lxml_valid (lit ''a_b_c_d_e.txt'') (lit ''a_b_c_d_e'') 0 0 (lit '' Hello \<newline>'') =
          Some (seg, nxt)"
    by (simp add: eval_simps)
  have u: "utf8_encode (strip (lit '' Hello \<newline>'')) = Some [72, 101, 108, 108, 111]"
    by (simp add: eval_simps)
  from md5_of_stripped_line [OF m] u
  have "source_child_text (lit ''MD5_HASH_SOURCE'') seg = Some (hexlify (md5 [72, 101, 108, 108, 111]))"
    by auto
  then have "segment_md5 lxml_valid (lit ''a_b_c_d_e.txt'') (lit ''a_b_c_d_e'') 0 0 (lit '' Hello \<newline>'') =
       Some (lit ''8b1a9953c4611296a827abf8c47804d7'')"
    using m by (simp add: segment_md5_def md5_hello)
  then show ?thesis using m u by simp
qed

theorem md5_hello_counterexample:
  "segment_md5 lxml_valid (lit ''eng_NW_abc123_20200101_00000001.txt'')
     (lit ''eng_NW_abc123_20200101_00000001'') 0 0 (lit ''Hello\<newline>'') \<noteq>
   Some (lit ''8b1a9953c4611296a827abf8c47804d'')"
  by (simp add: segment_md5_def eval_simps md5_hello)

text \<open>
  C6. A line that is empty after stripping still gets its segment: \<open>start_char\<close> is the
  cursor, \<open>end_char\<close> is the cursor minus 1, and the loop goes on with the cursor plus 1.
\<close>

theorem empty_line_inverted_range:
  assumes "strip raw = []" and "lxml_valid fullid" and "lxml_valid (basename infile)"
  shows "\<exists>seg. make_segment lxml_valid infile fullid ln cs raw = Some (seg, cs + 1)
           \<and> source_attr (lit ''start_char'') seg = Some (str_int cs)
           \<and> source_attr (lit ''end_char'') seg = Some (str_int (cs - 1))
           \<and> source_child_text (lit ''ORIG_RAW_SOURCE'') seg = Some []
           \<and> segment_loop lxml_valid d infile fullid ln cs (raw # rest) st =
               segment_loop lxml_valid d infile fullid (Suc ln) (cs + 1) rest
                 (outfile_write d (tostring seg) st)"
proof -
  have "make_segment lxml_valid infile fullid ln cs raw \<noteq> None"
    using assms by (intro make_segment_emitted) simp_all
  then obtain seg nxt where m: "make_segment lxml_valid infile fullid ln cs raw = Some (seg, nxt)"
    by auto
  have n: "nxt = cs + 1"
    using make_segment_next [OF m] assms(1) by simp
  from make_segment_shape [OF m]
  have "source_attr (lit ''start_char'') seg = Some (str_int cs)"
    and "source_attr (lit ''end_char'') seg = Some (str_int (cs - 1))"
    and "source_child_text (lit ''ORIG_RAW_SOURCE'') seg = Some []"
    using assms(1) by (auto simp add: source_attr_def source_child_text_def lit_def)
  then show ?thesis
    using m n by simp
qed

theorem empty_line_inverted_range_witness:
  "strip (lit ''  \<newline>'') = [] \<and> lxml_valid (lit ''a_b_c_d_e'')
   \<and> lxml_valid (basename (lit ''dir/a_b_c_d_e.txt''))
   \<and> (\<exists>seg. make_segment lxml_valid (lit ''dir/a_b_c_d_e.txt'') (lit ''a_b_c_d_e'') 0 0 (lit ''  \<newline>'')
               = Some (seg, 1)
             \<and> source_attr (lit ''start_char'') seg = Some (lit ''0'')
             \<and> source_attr (lit ''end_char'') seg = Some (lit ''-1''))"
proof -
  have h1: "strip (lit ''  \<newline>'') = []" by (simp add: eval_simps)
  have h2: "lxml_valid (lit ''a_b_c_d_e'')" by (simp add: eval_simps)
  have h3: "lxml_valid (basename (lit ''dir/a_b_c_d_e.txt''))" by (simp add: eval_simps)
  have z: "str_int 0 = lit ''0''" and m: "str_int (0 - 1) = lit ''-1''"
    by (simp_all add: eval_simps)
  from empty_line_inverted_range [OF h1 h2 h3, of 0 0 Stdout "[]" no_output]
  have "\<exists>seg. make_segment lxml_valid (lit ''dir/a_b_c_d_e.txt'') (lit ''a_b_c_d_e'') 0 0 (lit ''  \<newline>'')
               = Some (seg, 1)
             \<and> source_attr (lit ''start_char'') seg = Some (lit ''0'')
             \<and> source_attr (lit ''end_char'') seg = Some (lit ''-1'')"
    unfolding z m by auto
  then show ?thesis using h1 h2 h3 by blast
qed


section \<open>The document of a file\<close>

lemma length5: "length xs = 5 \<Longrightarrow> \<exists>a b c d e. xs = [a, b, c, d, e]"
  by (auto simp add: eval_nat_numeral length_Suc_conv)

lemma parse_name_Some:
  "parse_name infile = Some (fullid, idtoks) \<Longrightarrow> idtoks = py_split 95 fullid \<and> length idtoks = 5"
  by (auto simp add: parse_name_def fullidfields_def Let_def split: list.splits if_splits)

lemma document_head_five:
  \<open>document_head a fullid [t0, t1, t2, t3, t4] =
     lit ''<DOCUMENT id="'' @ fullid @ lit ''">\<newline>''
     @ lit ''  <SOURCE_LANGUAGE>'' @ t0 @ lit ''</SOURCE_LANGUAGE>\<newline>''
     @ lit ''  <GENRE>'' @ t1 @ lit ''</GENRE>\<newline>''
     @ lit ''  <PROVENANCE>'' @ t2 @ lit ''</PROVENANCE>\<newline>''
     @ lit ''  <DATE>'' @ t3 @ lit ''</DATE>\<newline>''
     @ lit ''  <INDEX_ID>'' @ t4 @ lit ''</INDEX_ID>\<newline>''
     @ lit ''  <DIRECTION>'' @ direction a @ lit ''</DIRECTION>\<newline>''\<close>
  by (simp add: document_head_def fullidfields_def field_text_def lit_def)

lemma process_file_output:
  assumes "parse_name infile = Some (fullid, idtoks)"
    and "stream_accepts strict (outfile a) (document_head a fullid idtoks)"
  shows "\<exists>st'. process_file strict xml_ok fs a infile st = Inr st'
     \<and> stderr st' = stderr st @ file_warnings xml_ok fs infile
     \<and> output_of (outfile a) st' =
         output_of (outfile a) st @ document_head a fullid idtoks
         @ concat (map tostring (segments xml_ok infile fullid 0 0 (fst (readlines fs infile))))
         @ lit ''</DOCUMENT>\<newline>''"
  using assms
  by (simp add: process_file_eq head_text_def output_of_emit stderr_emit document_text_def)

lemma process_file_raises:
  assumes "parse_name infile = Some (fullid, idtoks)"
    and "\<not> stream_accepts strict (outfile a) (document_head a fullid idtoks)"
  shows "process_file strict xml_ok fs a infile st = Inl UnicodeEncodeError"
  using assms by (simp add: process_file_eq head_text_def)

lemma tostring_segment:
  \<open>tostring (Element (lit ''SEGMENT'') [] None
      [Element (lit ''SOURCE'') [(lit ''id'', i), (lit ''start_char'', s), (lit ''end_char'', e)] None
         [Element (lit ''FULL_ID_SOURCE'') [] (Some t0) [],
          Element (lit ''ORIG_SEG_ID'') [] (Some t1) [],
          Element (lit ''ORIG_FILENAME'') [] (Some t2) [],
          Element (lit ''MD5_HASH_SOURCE'') [] (Some t3) [],
          Element (lit ''ORIG_RAW_SOURCE'') [] (Some t4) []]]) =
     lit ''<SEGMENT>\<newline>''
     @ lit ''  <SOURCE id="'' @ escape_attr i @ lit ''" start_char="'' @ escape_attr s
     @ lit ''" end_char="'' @ escape_attr e @ lit ''">\<newline>''
     @ lit ''    <FULL_ID_SOURCE>'' @ escape_text t0 @ lit ''</FULL_ID_SOURCE>\<newline>''
     @ lit ''    <ORIG_SEG_ID>'' @ escape_text t1 @ lit ''</ORIG_SEG_ID>\<newline>''
     @ lit ''    <ORIG_FILENAME>'' @ escape_text t2 @ lit ''</ORIG_FILENAME>\<newline>''
     @ lit ''    <MD5_HASH_SOURCE>'' @ escape_text t3 @ lit ''</MD5_HASH_SOURCE>\<newline>''
     @ lit ''    <ORIG_RAW_SOURCE>'' @ escape_text t4 @ lit ''</ORIG_RAW_SOURCE>\<newline>''
     @ lit ''  </SOURCE>\<newline>''
     @ lit ''</SEGMENT>\<newline>''\<close>
  by (simp add: tostring_def attr_text_def indent_def newline_def lit_def eval_nat_numeral)


lemma document_head_output:
  assumes "parse_name infile = Some (fullid, idtoks)"
    and "stream_accepts strict (outfile a) (document_head a fullid idtoks)"
  shows \<open>\<exists>t0 t1 t2 t3 t4 st'.
            idtoks = [t0, t1, t2, t3, t4]
          \<and> process_file strict xml_ok fs a infile st = Inr st'
          \<and> output_of (outfile a) st' =
              output_of (outfile a) st
              @ lit ''<DOCUMENT id="'' @ fullid @ lit ''">\<newline>''
              @ lit ''  <SOURCE_LANGUAGE>'' @ t0 @ lit ''</SOURCE_LANGUAGE>\<newline>''
              @ lit ''  <GENRE>'' @ t1 @ lit ''</GENRE>\<newline>''
              @ lit ''  <PROVENANCE>'' @ t2 @ lit ''</PROVENANCE>\<newline>''
              @ lit ''  <DATE>'' @ t3 @ lit ''</DATE>\<newline>''
              @ lit ''  <INDEX_ID>'' @ t4 @ lit ''</INDEX_ID>\<newline>''
              @ lit ''  <DIRECTION>'' @ direction a @ lit ''</DIRECTION>\<newline>''
              @ concat (map tostring (segments xml_ok infile fullid 0 0 (fst (readlines fs infile))))
              @ lit ''</DOCUMENT>\<newline>''\<close>
proof -
  obtain t0 t1 t2 t3 t4 where t: "idtoks = [t0, t1, t2, t3, t4]"
    using parse_name_Some [OF assms(1)] length5 by blast
  obtain st' where p: "process_file strict xml_ok fs a infile st = Inr st'"
    and o: "output_of (outfile a) st' =
     output_of (outfile a) st @ document_head a fullid [t0, t1, t2, t3, t4]
     @ concat (map tostring (segments xml_ok infile fullid 0 0 (fst (readlines fs infile))))
     @ lit ''</DOCUMENT>\<newline>''"
    using process_file_output [OF assms, of xml_ok fs st] t by auto
  show ?thesis
    using t p o by (simp only: document_head_five append_assoc) blast
qed

lemma segment_shape_text:
  assumes "make_segment xml_ok infile fullid ln cs raw = Some (seg, nxt)"
  shows \<open>\<exists>h. seg =
                Element (lit ''SEGMENT'') [] None
                  [Element (lit ''SOURCE'')
                     [(lit ''id'', fullid @ lit ''.'' @ str_nat ln),
                      (lit ''start_char'', str_int cs),
                      (lit ''end_char'', str_int (cs + int (length (strip raw)) - 1))]
                     None
                     [Element (lit ''FULL_ID_SOURCE'') [] (Some fullid) [],
                      Element (lit ''ORIG_SEG_ID'') [] (Some (lit ''segment-'' @ str_nat ln)) [],
                      Element (lit ''ORIG_FILENAME'') [] (Some (basename infile)) [],
                      Element (lit ''MD5_HASH_SOURCE'') [] (Some h) [],
                      Element (lit ''ORIG_RAW_SOURCE'') [] (Some (strip raw)) []]]
            \<and> tostring seg =
                lit ''<SEGMENT>\<newline>''
                @ lit ''  <SOURCE id="'' @ escape_attr (fullid @ lit ''.'' @ str_nat ln)
                @ lit ''" start_char="'' @ escape_attr (str_int cs)
                @ lit ''" end_char="''
                @ escape_attr (str_int (cs + int (length (strip raw)) - 1))
                @ lit ''">\<newline>''
                @ lit ''    <FULL_ID_SOURCE>'' @ escape_text fullid @ lit ''</FULL_ID_SOURCE>\<newline>''
                @ lit ''    <ORIG_SEG_ID>'' @ escape_text (lit ''segment-'' @ str_nat ln)
                @ lit ''</ORIG_SEG_ID>\<newline>''
                @ lit ''    <ORIG_FILENAME>'' @ escape_text (basename infile)
                @ lit ''</ORIG_FILENAME>\<newline>''
                @ lit ''    <MD5_HASH_SOURCE>'' @ escape_text h @ lit ''</MD5_HASH_SOURCE>\<newline>''
                @ lit ''    <ORIG_RAW_SOURCE>'' @ escape_text (strip raw)
                @ lit ''</ORIG_RAW_SOURCE>\<newline>''
                @ lit ''  </SOURCE>\<newline>''
                @ lit ''</SEGMENT>\<newline>''\<close>
proof -
  from make_segment_shape [OF assms]
  obtain bytes where s: "seg =
                Element (lit ''SEGMENT'') [] None
                  [Element (lit ''SOURCE'')
                     [(lit ''id'', fullid @ lit ''.'' @ str_nat ln),
                      (lit ''start_char'', str_int cs),
                      (lit ''end_char'', str_int (cs + int (length (strip raw)) - 1))]
                     None
                     [Element (lit ''FULL_ID_SOURCE'') [] (Some fullid) [],
                      Element (lit ''ORIG_SEG_ID'') [] (Some (lit ''segment-'' @ str_nat ln)) [],
                      Element (lit ''ORIG_FILENAME'') [] (Some (basename infile)) [],
                      Element (lit ''MD5_HASH_SOURCE'') [] (Some (hexlify (md5 bytes))) [],
                      Element (lit ''ORIG_RAW_SOURCE'') [] (Some (strip raw)) []]]"
    by blast
  show ?thesis
    by (rule exI [of _ "hexlify (md5 bytes)"], rule conjI, rule s, simp only: s tostring_segment)
qed

text \<open>
  C7. For a file with a valid name, whose head (the text of lines 107 to 110) the output
  stream can encode, the script writes the DOCUMENT start tag with
  \<open>id\<close> equal to the DocumentId, then SOURCE_LANGUAGE, GENRE, PROVENANCE, DATE and
  INDEX_ID holding the five tokens in order, then DIRECTION, then the segments in line
  order, then the end tag. Segment \<open>j\<close> is a SEGMENT with one SOURCE child whose
  attributes are \<open>id\<close> (DocumentId, a dot, \<open>j\<close>), \<open>start_char\<close> and \<open>end_char\<close> in decimal,
  and whose children are FULL_ID_SOURCE, ORIG_SEG_ID, ORIG_FILENAME, MD5_HASH_SOURCE and
  ORIG_RAW_SOURCE in this order.
\<close>

theorem document_structure:
  assumes "parse_name infile = Some (fullid, idtoks)"
    and "stream_accepts strict (outfile a) (document_head a fullid idtoks)"
    and "ls = fst (readlines fs infile)"
    and "segs = segments xml_ok infile fullid 0 0 ls"
  shows \<open>(\<exists>t0 t1 t2 t3 t4 st'.
            idtoks = [t0, t1, t2, t3, t4]
          \<and> process_file strict xml_ok fs a infile st = Inr st'
          \<and> output_of (outfile a) st' =
              output_of (outfile a) st
              @ lit ''<DOCUMENT id="'' @ fullid @ lit ''">\<newline>''
              @ lit ''  <SOURCE_LANGUAGE>'' @ t0 @ lit ''</SOURCE_LANGUAGE>\<newline>''
              @ lit ''  <GENRE>'' @ t1 @ lit ''</GENRE>\<newline>''
              @ lit ''  <PROVENANCE>'' @ t2 @ lit ''</PROVENANCE>\<newline>''
              @ lit ''  <DATE>'' @ t3 @ lit ''</DATE>\<newline>''
              @ lit ''  <INDEX_ID>'' @ t4 @ lit ''</INDEX_ID>\<newline>''
              @ lit ''  <DIRECTION>'' @ direction a @ lit ''</DIRECTION>\<newline>''
              @ concat (map tostring segs)
              @ lit ''</DOCUMENT>\<newline>'')
       \<and> (\<forall>j < length segs. \<exists>h.
              segs ! j =
                Element (lit ''SEGMENT'') [] None
                  [Element (lit ''SOURCE'')
                     [(lit ''id'', fullid @ lit ''.'' @ str_nat j),
                      (lit ''start_char'', str_int (cursor_at ls j)),
                      (lit ''end_char'', str_int (cursor_at ls j + int (length (strip (ls ! j))) - 1))]
                     None
                     [Element (lit ''FULL_ID_SOURCE'') [] (Some fullid) [],
                      Element (lit ''ORIG_SEG_ID'') [] (Some (lit ''segment-'' @ str_nat j)) [],
                      Element (lit ''ORIG_FILENAME'') [] (Some (basename infile)) [],
                      Element (lit ''MD5_HASH_SOURCE'') [] (Some h) [],
                      Element (lit ''ORIG_RAW_SOURCE'') [] (Some (strip (ls ! j))) []]]
            \<and> tostring (segs ! j) =
                lit ''<SEGMENT>\<newline>''
                @ lit ''  <SOURCE id="'' @ escape_attr (fullid @ lit ''.'' @ str_nat j)
                @ lit ''" start_char="'' @ escape_attr (str_int (cursor_at ls j))
                @ lit ''" end_char="''
                @ escape_attr (str_int (cursor_at ls j + int (length (strip (ls ! j))) - 1))
                @ lit ''">\<newline>''
                @ lit ''    <FULL_ID_SOURCE>'' @ escape_text fullid @ lit ''</FULL_ID_SOURCE>\<newline>''
                @ lit ''    <ORIG_SEG_ID>'' @ escape_text (lit ''segment-'' @ str_nat j)
                @ lit ''</ORIG_SEG_ID>\<newline>''
                @ lit ''    <ORIG_FILENAME>'' @ escape_text (basename infile)
                @ lit ''</ORIG_FILENAME>\<newline>''
                @ lit ''    <MD5_HASH_SOURCE>'' @ escape_text h @ lit ''</MD5_HASH_SOURCE>\<newline>''
                @ lit ''    <ORIG_RAW_SOURCE>'' @ escape_text (strip (ls ! j))
                @ lit ''</ORIG_RAW_SOURCE>\<newline>''
                @ lit ''  </SOURCE>\<newline>''
                @ lit ''</SEGMENT>\<newline>'')\<close>
proof (intro conjI allI impI)
  show \<open>\<exists>t0 t1 t2 t3 t4 st'.
            idtoks = [t0, t1, t2, t3, t4]
          \<and> process_file strict xml_ok fs a infile st = Inr st'
          \<and> output_of (outfile a) st' =
              output_of (outfile a) st
              @ lit ''<DOCUMENT id="'' @ fullid @ lit ''">\<newline>''
              @ lit ''  <SOURCE_LANGUAGE>'' @ t0 @ lit ''</SOURCE_LANGUAGE>\<newline>''
              @ lit ''  <GENRE>'' @ t1 @ lit ''</GENRE>\<newline>''
              @ lit ''  <PROVENANCE>'' @ t2 @ lit ''</PROVENANCE>\<newline>''
              @ lit ''  <DATE>'' @ t3 @ lit ''</DATE>\<newline>''
              @ lit ''  <INDEX_ID>'' @ t4 @ lit ''</INDEX_ID>\<newline>''
              @ lit ''  <DIRECTION>'' @ direction a @ lit ''</DIRECTION>\<newline>''
              @ concat (map tostring segs)
              @ lit ''</DOCUMENT>\<newline>''\<close>
    unfolding assms(3,4) by (rule document_head_output [OF assms(1,2)])
next
  fix j assume j: "j < length segs"
  then have m: "make_segment xml_ok infile fullid j (cursor_at ls j) (ls ! j) =
          Some (segs ! j, cursor_at ls (Suc j))"
    using segments_nth [of j xml_ok infile fullid 0 0 ls] assms(4) by simp
  show \<open>\<exists>h.
              segs ! j =
                Element (lit ''SEGMENT'') [] None
                  [Element (lit ''SOURCE'')
                     [(lit ''id'', fullid @ lit ''.'' @ str_nat j),
                      (lit ''start_char'', str_int (cursor_at ls j)),
                      (lit ''end_char'', str_int (cursor_at ls j + int (length (strip (ls ! j))) - 1))]
                     None
                     [Element (lit ''FULL_ID_SOURCE'') [] (Some fullid) [],
                      Element (lit ''ORIG_SEG_ID'') [] (Some (lit ''segment-'' @ str_nat j)) [],
                      Element (lit ''ORIG_FILENAME'') [] (Some (basename infile)) [],
                      Element (lit ''MD5_HASH_SOURCE'') [] (Some h) [],
                      Element (lit ''ORIG_RAW_SOURCE'') [] (Some (strip (ls ! j))) []]]
            \<and> tostring (segs ! j) =
                lit ''<SEGMENT>\<newline>''
                @ lit ''  <SOURCE id="'' @ escape_attr (fullid @ lit ''.'' @ str_nat j)
                @ lit ''" start_char="'' @ escape_attr (str_int (cursor_at ls j))
                @ lit ''" end_char="''
                @ escape_attr (str_int (cursor_at ls j + int (length (strip (ls ! j))) - 1))
                @ lit ''">\<newline>''
                @ lit ''    <FULL_ID_SOURCE>'' @ escape_text fullid @ lit ''</FULL_ID_SOURCE>\<newline>''
                @ lit ''    <ORIG_SEG_ID>'' @ escape_text (lit ''segment-'' @ str_nat j)
                @ lit ''</ORIG_SEG_ID>\<newline>''
                @ lit ''    <ORIG_FILENAME>'' @ escape_text (basename infile)
                @ lit ''</ORIG_FILENAME>\<newline>''
                @ lit ''    <MD5_HASH_SOURCE>'' @ escape_text h @ lit ''</MD5_HASH_SOURCE>\<newline>''
                @ lit ''    <ORIG_RAW_SOURCE>'' @ escape_text (strip (ls ! j))
                @ lit ''</ORIG_RAW_SOURCE>\<newline>''
                @ lit ''  </SOURCE>\<newline>''
                @ lit ''</SEGMENT>\<newline>''\<close>
    by (rule segment_shape_text [OF m])
qed


lemma demo_parse:
  "parse_name (lit ''in/eng_NW_abc123_20200101_00000001.txt'') =
     Some (lit ''eng_NW_abc123_20200101_00000001'',
           [lit ''eng'', lit ''NW'', lit ''abc123'', lit ''20200101'', lit ''00000001''])"
  by (simp add: parse_name_def fullidfields_def eval_simps)

lemma demo_read:
  "readlines demo_fs (lit ''in/eng_NW_abc123_20200101_00000001.txt'') =
     ([lit ''Hello\<newline>'', lit ''World\<newline>''], False)"
  by (simp add: readlines_def demo_fs_def lit_def)

lemma demo_segments_length:
  "length (segments lxml_valid (lit ''in/eng_NW_abc123_20200101_00000001.txt'')
     (lit ''eng_NW_abc123_20200101_00000001'') 0 0 [lit ''Hello\<newline>'', lit ''World\<newline>'']) = 2"
  by (simp add: eval_simps)

theorem document_structure_witness:
  \<open>parse_name (lit ''in/eng_NW_abc123_20200101_00000001.txt'') =
     Some (lit ''eng_NW_abc123_20200101_00000001'',
           [lit ''eng'', lit ''NW'', lit ''abc123'', lit ''20200101'', lit ''00000001''])
   \<and> stream_accepts True (OutFile (lit ''out.xml''))
         (document_head (demo_file_args (lit ''out.xml'') [])
            (lit ''eng_NW_abc123_20200101_00000001'')
            [lit ''eng'', lit ''NW'', lit ''abc123'', lit ''20200101'', lit ''00000001''])
   \<and> [lit ''Hello\<newline>'', lit ''World\<newline>''] =
       fst (readlines demo_fs (lit ''in/eng_NW_abc123_20200101_00000001.txt''))
   \<and> 1 < length (segments lxml_valid (lit ''in/eng_NW_abc123_20200101_00000001.txt'')
                   (lit ''eng_NW_abc123_20200101_00000001'') 0 0
                   [lit ''Hello\<newline>'', lit ''World\<newline>''])
   \<and> (\<exists>h. tostring
              (segments lxml_valid (lit ''in/eng_NW_abc123_20200101_00000001.txt'')
                 (lit ''eng_NW_abc123_20200101_00000001'') 0 0
                 [lit ''Hello\<newline>'', lit ''World\<newline>''] ! 1) =
            lit ''<SEGMENT>\<newline>''
            @ lit ''  <SOURCE id="eng_NW_abc123_20200101_00000001.1" start_char="6" end_char="10">\<newline>''
            @ lit ''    <FULL_ID_SOURCE>eng_NW_abc123_20200101_00000001</FULL_ID_SOURCE>\<newline>''
            @ lit ''    <ORIG_SEG_ID>segment-1</ORIG_SEG_ID>\<newline>''
            @ lit ''    <ORIG_FILENAME>eng_NW_abc123_20200101_00000001.txt</ORIG_FILENAME>\<newline>''
            @ lit ''    <MD5_HASH_SOURCE>'' @ escape_text h @ lit ''</MD5_HASH_SOURCE>\<newline>''
            @ lit ''    <ORIG_RAW_SOURCE>World</ORIG_RAW_SOURCE>\<newline>''
            @ lit ''  </SOURCE>\<newline>''
            @ lit ''</SEGMENT>\<newline>'')\<close>
proof -
  let ?f = "lit ''in/eng_NW_abc123_20200101_00000001.txt''"
  let ?i = "lit ''eng_NW_abc123_20200101_00000001''"
  let ?ls = "[lit ''Hello\<newline>'', lit ''World\<newline>'']"
  have r: "?ls = fst (readlines demo_fs ?f)"
    by (simp add: demo_read)
  have l: "1 < length (segments lxml_valid ?f ?i 0 0 ?ls)"
    unfolding demo_segments_length by simp
  have w: "stream_accepts True (OutFile (lit ''out.xml''))
         (document_head (demo_file_args (lit ''out.xml'') []) ?i
            [lit ''eng'', lit ''NW'', lit ''abc123'', lit ''20200101'', lit ''00000001''])"
    by (simp add: document_head_five demo_file_args_def)
  have o: "outfile (demo_file_args (lit ''out.xml'') []) = OutFile (lit ''out.xml'')"
    by (simp add: demo_file_args_def)
  note t = document_structure [where xml_ok = lxml_valid
      and a = "demo_file_args (lit ''out.xml'') []" and strict = True
      and st = no_output, unfolded o, OF demo_parse w r refl,
      THEN conjunct2, THEN spec, THEN mp, OF l]
  have e1: \<open>escape_attr (?i @ lit ''.'' @ str_nat 1) = lit ''eng_NW_abc123_20200101_00000001.1''\<close>
    by (simp add: eval_simps escape_attr_def escape_attr_char_def)
  have e2: "escape_attr (str_int (cursor_at ?ls 1)) = lit ''6''"
    by (simp add: eval_simps escape_attr_def escape_attr_char_def)
  have e3: "escape_attr (str_int (cursor_at ?ls 1 + int (length (strip (?ls ! 1))) - 1)) = lit ''10''"
    by (simp add: eval_simps escape_attr_def escape_attr_char_def)
  have e4: "escape_text ?i = ?i"
    by (simp add: eval_simps escape_text_def escape_text_char_def)
  have e5: "escape_text (lit ''segment-'' @ str_nat 1) = lit ''segment-1''"
    by (simp add: eval_simps escape_text_def escape_text_char_def)
  have e6: "escape_text (basename ?f) = lit ''eng_NW_abc123_20200101_00000001.txt''"
    by (simp add: eval_simps escape_text_def escape_text_char_def)
  have e7: "escape_text (strip (?ls ! 1)) = lit ''World''"
    by (simp add: eval_simps escape_text_def escape_text_char_def)
  from t obtain h where
    \<open>tostring (segments lxml_valid ?f ?i 0 0 ?ls ! 1) =
            lit ''<SEGMENT>\<newline>''
            @ lit ''  <SOURCE id="'' @ lit ''eng_NW_abc123_20200101_00000001.1''
            @ lit ''" start_char="'' @ lit ''6''
            @ lit ''" end_char="'' @ lit ''10'' @ lit ''">\<newline>''
            @ lit ''    <FULL_ID_SOURCE>'' @ ?i @ lit ''</FULL_ID_SOURCE>\<newline>''
            @ lit ''    <ORIG_SEG_ID>'' @ lit ''segment-1'' @ lit ''</ORIG_SEG_ID>\<newline>''
            @ lit ''    <ORIG_FILENAME>'' @ lit ''eng_NW_abc123_20200101_00000001.txt''
            @ lit ''</ORIG_FILENAME>\<newline>''
            @ lit ''    <MD5_HASH_SOURCE>'' @ escape_text h @ lit ''</MD5_HASH_SOURCE>\<newline>''
            @ lit ''    <ORIG_RAW_SOURCE>'' @ lit ''World'' @ lit ''</ORIG_RAW_SOURCE>\<newline>''
            @ lit ''  </SOURCE>\<newline>''
            @ lit ''</SEGMENT>\<newline>''\<close>
    unfolding e1 e2 e3 e4 e5 e6 e7 by blast
  then have \<open>tostring (segments lxml_valid ?f ?i 0 0 ?ls ! 1) =
            lit ''<SEGMENT>\<newline>''
            @ lit ''  <SOURCE id="eng_NW_abc123_20200101_00000001.1" start_char="6" end_char="10">\<newline>''
            @ lit ''    <FULL_ID_SOURCE>eng_NW_abc123_20200101_00000001</FULL_ID_SOURCE>\<newline>''
            @ lit ''    <ORIG_SEG_ID>segment-1</ORIG_SEG_ID>\<newline>''
            @ lit ''    <ORIG_FILENAME>eng_NW_abc123_20200101_00000001.txt</ORIG_FILENAME>\<newline>''
            @ lit ''    <MD5_HASH_SOURCE>'' @ escape_text h @ lit ''</MD5_HASH_SOURCE>\<newline>''
            @ lit ''    <ORIG_RAW_SOURCE>World</ORIG_RAW_SOURCE>\<newline>''
            @ lit ''  </SOURCE>\<newline>''
            @ lit ''</SEGMENT>\<newline>''\<close>
    by (simp add: lit_def)
  then show ?thesis
    using demo_parse w r l by blast
qed


section \<open>Skipped and failed files\<close>

lemma py_split_hd: "\<exists>rest. py_split sep s = takeWhile (\<lambda>c. c \<noteq> sep) s # rest"
  by (induction s) (auto split: list.splits)

lemma parse_name_eq:
  "parse_name infile =
     (if length (py_split 95 (takeWhile (\<lambda>c. c \<noteq> 46) (basename infile))) = 5
      then Some (takeWhile (\<lambda>c. c \<noteq> 46) (basename infile),
                 py_split 95 (takeWhile (\<lambda>c. c \<noteq> 46) (basename infile)))
      else None)"
proof -
  obtain rest where "py_split 46 (basename infile) = takeWhile (\<lambda>c. c \<noteq> 46) (basename infile) # rest"
    using py_split_hd by blast
  then show ?thesis
    by (simp add: parse_name_def fullidfields_def Let_def)
qed

lemma document_text_skipped: "parse_name infile = None \<Longrightarrow> document_text xml_ok fs a infile = []"
  by (simp add: document_text_def)

lemma document_text_starts:
  \<open>parse_name infile = Some (fullid, idtoks) \<Longrightarrow>
     \<exists>rest. document_text xml_ok fs a infile = lit ''<DOCUMENT id="'' @ fullid @ lit ''">\<newline>'' @ rest\<close>
  by (simp add: document_text_def document_head_def)

lemma output_of_stderr_write [simp]: "output_of d (stderr_write s st) = output_of d st"
  by (cases d) (simp_all add: output_of_def stderr_write_def)

lemma odd_parse:
  "parse_name demo_odd_name =
     Some (lit ''eng_NW_caf'' @ [0xDCE9] @ lit ''_20200101_00000001'',
           [lit ''eng'', lit ''NW'', lit ''caf'' @ [0xDCE9], lit ''20200101'', lit ''00000001''])"
  by (simp add: parse_name_def fullidfields_def demo_odd_name_def eval_simps)

lemma encodable_Cons: "encodable (c # s) \<longleftrightarrow> utf8_char c \<noteq> None \<and> encodable s"
  unfolding encodable_def utf8_encode_ok by simp

lemma odd_head:
  "\<not> stream_accepts True (OutFile name) (head_text a demo_odd_name)"
  by (simp add: head_text_def odd_parse document_head_def stream_accepts_def encodable_Cons
      utf8_char_def)

text \<open>
  C3. The DocumentId is the basename up to its first dot, and its tokens are its split at
  underscores. Exactly when there are not five tokens the file is skipped: only the
  warning naming it is written, the loop goes on with the next file, and the run ends as
  it does without the file in the list, with the same output. With five tokens the file
  is not skipped: the DOCUMENT start tag is written where the output stream can encode
  the head of the file, and where it cannot the write raises and the run ends.
\<close>

theorem malformed_name_skipped:
  \<open>parse_name infile =
     (if length (py_split 95 (takeWhile (\<lambda>c. c \<noteq> 46) (basename infile))) = 5
      then Some (takeWhile (\<lambda>c. c \<noteq> 46) (basename infile),
                 py_split 95 (takeWhile (\<lambda>c. c \<noteq> 46) (basename infile)))
      else None)
   \<and> (parse_name infile = None \<longrightarrow>
        process_file strict xml_ok fs a infile st =
          Inr (stderr_write
                 (infile @ lit '' is not in proper naming convention; skipping\<newline>'') st)
        \<and> output_of (outfile a)
             (stderr_write
                (infile @ lit '' is not in proper naming convention; skipping\<newline>'') st) =
            output_of (outfile a) st
        \<and> process_files strict xml_ok fs a (infile # rest) st =
            process_files strict xml_ok fs a rest
              (stderr_write (infile @ lit '' is not in proper naming convention; skipping\<newline>'') st)
        \<and> map_sum id (output_of (outfile a))
             (process_files strict xml_ok fs a (before @ infile # rest) st) =
            map_sum id (output_of (outfile a))
             (process_files strict xml_ok fs a (before @ rest) st))
   \<and> (parse_name infile \<noteq> None \<and> stream_accepts strict (outfile a) (head_text a infile) \<longrightarrow>
        (\<exists>more st'. process_file strict xml_ok fs a infile st = Inr st'
           \<and> output_of (outfile a) st' =
               output_of (outfile a) st
               @ lit ''<DOCUMENT id="'' @ takeWhile (\<lambda>c. c \<noteq> 46) (basename infile)
               @ lit ''">\<newline>'' @ more))
   \<and> (parse_name infile \<noteq> None \<and> \<not> stream_accepts strict (outfile a) (head_text a infile) \<longrightarrow>
        process_file strict xml_ok fs a infile st = Inl UnicodeEncodeError)\<close>
proof (intro conjI impI)
  show "parse_name infile =
     (if length (py_split 95 (takeWhile (\<lambda>c. c \<noteq> 46) (basename infile))) = 5
      then Some (takeWhile (\<lambda>c. c \<noteq> 46) (basename infile),
                 py_split 95 (takeWhile (\<lambda>c. c \<noteq> 46) (basename infile)))
      else None)"
    by (rule parse_name_eq)
next
  assume n: "parse_name infile = None"
  have h: "head_text a infile = []"
    using n by (simp add: head_text_def)
  show p: "process_file strict xml_ok fs a infile st =
          Inr (stderr_write
                 (infile @ lit '' is not in proper naming convention; skipping\<newline>'') st)"
    using n by (simp add: process_file_def)
  show "output_of (outfile a)
             (stderr_write
                (infile @ lit '' is not in proper naming convention; skipping\<newline>'') st) =
            output_of (outfile a) st"
    by simp
  show "process_files strict xml_ok fs a (infile # rest) st =
            process_files strict xml_ok fs a rest
              (stderr_write (infile @ lit '' is not in proper naming convention; skipping\<newline>'') st)"
    using p by simp
  show "map_sum id (output_of (outfile a))
             (process_files strict xml_ok fs a (before @ infile # rest) st) =
            map_sum id (output_of (outfile a))
             (process_files strict xml_ok fs a (before @ rest) st)"
    using n h by (simp add: process_files_eq output_of_emit document_text_skipped)
next
  assume "parse_name infile \<noteq> None \<and> stream_accepts strict (outfile a) (head_text a infile)"
  then have s: "parse_name infile = Some (takeWhile (\<lambda>c. c \<noteq> 46) (basename infile),
                 py_split 95 (takeWhile (\<lambda>c. c \<noteq> 46) (basename infile)))"
    and w: "stream_accepts strict (outfile a) (head_text a infile)"
    using parse_name_eq [of infile] by (simp_all split: if_splits)
  obtain more where \<open>document_text xml_ok fs a infile =
      lit ''<DOCUMENT id="'' @ takeWhile (\<lambda>c. c \<noteq> 46) (basename infile) @ lit ''">\<newline>'' @ more\<close>
    using document_text_starts [OF s] by blast
  then show \<open>\<exists>more st'. process_file strict xml_ok fs a infile st = Inr st'
           \<and> output_of (outfile a) st' =
               output_of (outfile a) st
               @ lit ''<DOCUMENT id="'' @ takeWhile (\<lambda>c. c \<noteq> 46) (basename infile)
               @ lit ''">\<newline>'' @ more\<close>
    using w by (simp add: process_file_eq output_of_emit)
next
  assume "parse_name infile \<noteq> None \<and> \<not> stream_accepts strict (outfile a) (head_text a infile)"
  then show "process_file strict xml_ok fs a infile st = Inl UnicodeEncodeError"
    by (simp add: process_file_eq)
qed

lemma notes_parse: "parse_name (lit ''in/notes.txt'') = None"
  by (simp add: parse_name_def fullidfields_def eval_simps)

theorem malformed_name_skipped_witness:
  \<open>parse_name (lit ''in/notes.txt'') = None
   \<and> process_file True lxml_valid demo_fs (demo_file_args (lit ''out.xml'') [])
        (lit ''in/notes.txt'') no_output =
       Inr (no_output\<lparr>stderr :=
              lit ''in/notes.txt is not in proper naming convention; skipping\<newline>''\<rparr>)
   \<and> parse_name (lit ''in/eng_NW_abc123_20200101_00000001.txt'') \<noteq> None
   \<and> stream_accepts True (OutFile (lit ''out.xml''))
        (head_text (demo_file_args (lit ''out.xml'') [])
           (lit ''in/eng_NW_abc123_20200101_00000001.txt''))
   \<and> (\<exists>more st'.
         process_file True lxml_valid demo_fs (demo_file_args (lit ''out.xml'') [])
           (lit ''in/eng_NW_abc123_20200101_00000001.txt'') no_output = Inr st'
         \<and> output_of (OutFile (lit ''out.xml'')) st' =
             lit ''<DOCUMENT id="eng_NW_abc123_20200101_00000001">\<newline>'' @ more)
   \<and> parse_name demo_odd_name \<noteq> None
   \<and> stream_accepts True (OutFile (lit ''out.xml''))
        (head_text (demo_file_args (lit ''out.xml'') []) demo_odd_name) = False
   \<and> process_file True lxml_valid demo_fs (demo_file_args (lit ''out.xml'') [])
        demo_odd_name no_output = Inl UnicodeEncodeError\<close>
proof -
  let ?a = "demo_file_args (lit ''out.xml'') []"
  let ?f = "lit ''in/eng_NW_abc123_20200101_00000001.txt''"
  have o: "outfile ?a = OutFile (lit ''out.xml'')"
    by (simp add: demo_file_args_def)
  note t1 = malformed_name_skipped [where infile = "lit ''in/notes.txt''" and xml_ok = lxml_valid
      and fs = demo_fs and a = ?a and st = no_output and rest = "[]" and before = "[]"
      and strict = True, THEN conjunct2, THEN conjunct1, THEN mp, OF notes_parse]
  have b: "process_file True lxml_valid demo_fs ?a (lit ''in/notes.txt'') no_output =
       Inr (no_output\<lparr>stderr :=
              lit ''in/notes.txt is not in proper naming convention; skipping\<newline>''\<rparr>)"
    unfolding t1 [THEN conjunct1] by (simp add: stderr_write_def no_output_def lit_def)
  have p: "parse_name ?f \<noteq> None"
    by (simp add: demo_parse)
  have w: "stream_accepts True (OutFile (lit ''out.xml'')) (head_text ?a ?f)"
    by (simp add: head_text_def demo_parse document_head_five demo_file_args_def)
  have w': "stream_accepts True (outfile ?a) (head_text ?a ?f)"
    unfolding o by (rule w)
  have i: "takeWhile (\<lambda>c. c \<noteq> 46) (basename ?f) = lit ''eng_NW_abc123_20200101_00000001''"
    by (simp add: eval_simps)
  have e: "output_of (OutFile (lit ''out.xml'')) no_output = []"
    by (simp add: output_of_def no_output_def)
  have l: \<open>lit ''<DOCUMENT id="'' @ lit ''eng_NW_abc123_20200101_00000001'' @ lit ''">\<newline>'' @ more =
      lit ''<DOCUMENT id="eng_NW_abc123_20200101_00000001">\<newline>'' @ more\<close> for more
    by (simp add: lit_def)
  note t2 = malformed_name_skipped [where infile = ?f
      and xml_ok = lxml_valid and fs = demo_fs and a = ?a and st = no_output
      and rest = "[]" and before = "[]" and strict = True,
      THEN conjunct2, THEN conjunct2, THEN conjunct1, THEN mp, OF conjI [OF p w']]
  have c: \<open>\<exists>more st'.
         process_file True lxml_valid demo_fs ?a ?f no_output = Inr st'
         \<and> output_of (OutFile (lit ''out.xml'')) st' =
             lit ''<DOCUMENT id="eng_NW_abc123_20200101_00000001">\<newline>'' @ more\<close>
    using t2 unfolding o i e append_Nil l .
  have q: "parse_name demo_odd_name \<noteq> None"
    by (simp add: odd_parse)
  have v: "stream_accepts True (OutFile (lit ''out.xml'')) (head_text ?a demo_odd_name) = False"
    using odd_head by simp
  have v': "\<not> stream_accepts True (outfile ?a) (head_text ?a demo_odd_name)"
    unfolding o by (rule odd_head)
  note t3 = malformed_name_skipped [where infile = demo_odd_name
      and xml_ok = lxml_valid and fs = demo_fs and a = ?a and st = no_output
      and rest = "[]" and before = "[]" and strict = True,
      THEN conjunct2, THEN conjunct2, THEN conjunct2, THEN mp, OF conjI [OF q v']]
  show ?thesis
    by (intro conjI) (rule notes_parse b p w c q v t3)+
qed

text \<open>
  C2. When reading a file with a valid name raises after some lines, and the output stream
  can encode the head of the file, the segments of the lines read so far stay in the
  output, one warning naming the file goes to the error stream, the DOCUMENT end tag is
  still written, and the loop goes on with the next file. The output is the same as for a
  file that ends after these lines.
\<close>

theorem read_error_closes_document:
  assumes "parse_name infile = Some (fullid, idtoks)"
    and "stream_accepts strict (outfile a) (document_head a fullid idtoks)"
    and "fs infile = Regular ls True"
  shows "\<exists>st'. process_file strict xml_ok fs a infile st = Inr st'
         \<and> output_of (outfile a) st' =
             output_of (outfile a) st @ document_head a fullid idtoks
             @ concat (map tostring (segments xml_ok infile fullid 0 0 ls))
             @ lit ''</DOCUMENT>\<newline>''
         \<and> stderr st' = stderr st @ infile @ lit '' had a problem.\<newline>''
         \<and> process_files strict xml_ok fs a (infile # rest) st =
             process_files strict xml_ok fs a rest st'
         \<and> (fs' infile = Regular ls False \<longrightarrow>
               (\<exists>st''. process_file strict xml_ok fs' a infile st = Inr st''
                  \<and> output_of (outfile a) st'' = output_of (outfile a) st'))"
proof -
  have r: "readlines fs infile = (ls, True)"
    using assms(3) by (simp add: readlines_def)
  obtain st' where p: "process_file strict xml_ok fs a infile st = Inr st'"
    and e: "stderr st' = stderr st @ file_warnings xml_ok fs infile"
    and o: "output_of (outfile a) st' =
           output_of (outfile a) st @ document_head a fullid idtoks
           @ concat (map tostring (segments xml_ok infile fullid 0 0 ls))
           @ lit ''</DOCUMENT>\<newline>''"
    using process_file_output [OF assms(1,2), of xml_ok fs st] r by auto
  have w: "stderr st' = stderr st @ infile @ lit '' had a problem.\<newline>''"
    using e assms(1) r by (simp add: file_warnings_def file_failed_def)
  have c: "process_files strict xml_ok fs a (infile # rest) st =
             process_files strict xml_ok fs a rest st'"
    using p by simp
  have "\<exists>st''. process_file strict xml_ok fs' a infile st = Inr st''
                  \<and> output_of (outfile a) st'' = output_of (outfile a) st'"
    if "fs' infile = Regular ls False"
  proof -
    have "readlines fs' infile = (ls, False)"
      using that by (simp add: readlines_def)
    then show ?thesis
      using process_file_output [OF assms(1,2), of xml_ok fs' st] o by auto
  qed
  then show ?thesis using p o w c by blast
qed

lemma bad_parse:
  "parse_name (lit ''bad/eng_WL_x_20200101_00000003.txt'') =
     Some (lit ''eng_WL_x_20200101_00000003'',
           [lit ''eng'', lit ''WL'', lit ''x'', lit ''20200101'', lit ''00000003''])"
  by (simp add: parse_name_def fullidfields_def eval_simps)

lemma bad_node: "demo_fs (lit ''bad/eng_WL_x_20200101_00000003.txt'') = Regular [lit ''Hello\<newline>''] True"
  by (simp add: demo_fs_def lit_def)

lemma bad_segments_elements:
  "segments lxml_valid (lit ''bad/eng_WL_x_20200101_00000003.txt'')
      (lit ''eng_WL_x_20200101_00000003'') 0 0 [lit ''Hello\<newline>''] =
   [Element (lit ''SEGMENT'') [] None
      [Element (lit ''SOURCE'')
         [(lit ''id'', lit ''eng_WL_x_20200101_00000003.0''),
          (lit ''start_char'', lit ''0''),
          (lit ''end_char'', lit ''4'')]
         None
         [Element (lit ''FULL_ID_SOURCE'') [] (Some (lit ''eng_WL_x_20200101_00000003'')) [],
          Element (lit ''ORIG_SEG_ID'') [] (Some (lit ''segment-0'')) [],
          Element (lit ''ORIG_FILENAME'') [] (Some (lit ''eng_WL_x_20200101_00000003.txt'')) [],
          Element (lit ''MD5_HASH_SOURCE'') [] (Some (lit ''8b1a9953c4611296a827abf8c47804d7'')) [],
          Element (lit ''ORIG_RAW_SOURCE'') [] (Some (lit ''Hello'')) []]]]"
  by (simp add: eval_simps md5_hello)

lemma escape_attr_plain:
  "\<forall>c \<in> set s. c \<notin> {38, 60, 62, 34, 9, 10, 13} \<Longrightarrow> escape_attr s = s"
  by (induction s) (simp_all add: escape_attr_def escape_attr_char_def)

lemma escape_text_plain:
  "\<forall>c \<in> set s. c \<notin> {38, 60, 62, 13} \<Longrightarrow> escape_text s = s"
  by (induction s) (simp_all add: escape_text_def escape_text_char_def)

lemma bad_segments:
  \<open>concat (map tostring (segments lxml_valid (lit ''bad/eng_WL_x_20200101_00000003.txt'')
      (lit ''eng_WL_x_20200101_00000003'') 0 0 [lit ''Hello\<newline>''])) =
    lit ''<SEGMENT>\<newline>''
    @ lit ''  <SOURCE id="eng_WL_x_20200101_00000003.0" start_char="0" end_char="4">\<newline>''
    @ lit ''    <FULL_ID_SOURCE>eng_WL_x_20200101_00000003</FULL_ID_SOURCE>\<newline>''
    @ lit ''    <ORIG_SEG_ID>segment-0</ORIG_SEG_ID>\<newline>''
    @ lit ''    <ORIG_FILENAME>eng_WL_x_20200101_00000003.txt</ORIG_FILENAME>\<newline>''
    @ lit ''    <MD5_HASH_SOURCE>8b1a9953c4611296a827abf8c47804d7</MD5_HASH_SOURCE>\<newline>''
    @ lit ''    <ORIG_RAW_SOURCE>Hello</ORIG_RAW_SOURCE>\<newline>''
    @ lit ''  </SOURCE>\<newline>''
    @ lit ''</SEGMENT>\<newline>''\<close>
proof -
  have a: "escape_attr (lit ''eng_WL_x_20200101_00000003.0'') = lit ''eng_WL_x_20200101_00000003.0''"
    "escape_attr (lit ''0'') = lit ''0''" "escape_attr (lit ''4'') = lit ''4''"
    by (rule escape_attr_plain, simp add: lit_def)+
  have t: "escape_text (lit ''eng_WL_x_20200101_00000003'') = lit ''eng_WL_x_20200101_00000003''"
    "escape_text (lit ''segment-0'') = lit ''segment-0''"
    "escape_text (lit ''eng_WL_x_20200101_00000003.txt'') = lit ''eng_WL_x_20200101_00000003.txt''"
    "escape_text (lit ''8b1a9953c4611296a827abf8c47804d7'') = lit ''8b1a9953c4611296a827abf8c47804d7''"
    "escape_text (lit ''Hello'') = lit ''Hello''"
    by (rule escape_text_plain, simp add: lit_def)+
  show ?thesis
    unfolding bad_segments_elements
    by (simp only: list.map concat.simps append_Nil2 tostring_segment a t) (simp add: lit_def)
qed

theorem read_error_closes_document_witness:
  \<open>parse_name (lit ''bad/eng_WL_x_20200101_00000003.txt'') =
     Some (lit ''eng_WL_x_20200101_00000003'',
           [lit ''eng'', lit ''WL'', lit ''x'', lit ''20200101'', lit ''00000003''])
   \<and> stream_accepts True Stdout
         (document_head (demo_args []) (lit ''eng_WL_x_20200101_00000003'')
            [lit ''eng'', lit ''WL'', lit ''x'', lit ''20200101'', lit ''00000003''])
   \<and> demo_fs (lit ''bad/eng_WL_x_20200101_00000003.txt'') = Regular [lit ''Hello\<newline>''] True
   \<and> (\<exists>st'. process_file True lxml_valid demo_fs (demo_args [])
                (lit ''bad/eng_WL_x_20200101_00000003.txt'') no_output = Inr st'
     \<and> stderr st' = lit ''bad/eng_WL_x_20200101_00000003.txt had a problem.\<newline>''
     \<and> output_of Stdout st' =
       lit ''<DOCUMENT id="eng_WL_x_20200101_00000003">\<newline>''
       @ lit ''  <SOURCE_LANGUAGE>eng</SOURCE_LANGUAGE>\<newline>''
       @ lit ''  <GENRE>WL</GENRE>\<newline>''
       @ lit ''  <PROVENANCE>x</PROVENANCE>\<newline>''
       @ lit ''  <DATE>20200101</DATE>\<newline>''
       @ lit ''  <INDEX_ID>00000003</INDEX_ID>\<newline>''
       @ lit ''  <DIRECTION>fromsource</DIRECTION>\<newline>''
       @ lit ''<SEGMENT>\<newline>''
       @ lit ''  <SOURCE id="eng_WL_x_20200101_00000003.0" start_char="0" end_char="4">\<newline>''
       @ lit ''    <FULL_ID_SOURCE>eng_WL_x_20200101_00000003</FULL_ID_SOURCE>\<newline>''
       @ lit ''    <ORIG_SEG_ID>segment-0</ORIG_SEG_ID>\<newline>''
       @ lit ''    <ORIG_FILENAME>eng_WL_x_20200101_00000003.txt</ORIG_FILENAME>\<newline>''
       @ lit ''    <MD5_HASH_SOURCE>8b1a9953c4611296a827abf8c47804d7</MD5_HASH_SOURCE>\<newline>''
       @ lit ''    <ORIG_RAW_SOURCE>Hello</ORIG_RAW_SOURCE>\<newline>''
       @ lit ''  </SOURCE>\<newline>''
       @ lit ''</SEGMENT>\<newline>''
       @ lit ''</DOCUMENT>\<newline>'')\<close>
proof -
  have o: "outfile (demo_args []) = Stdout"
    by (simp add: demo_args_def)
  have h: \<open>document_head (demo_args []) (lit ''eng_WL_x_20200101_00000003'')
              [lit ''eng'', lit ''WL'', lit ''x'', lit ''20200101'', lit ''00000003''] =
       lit ''<DOCUMENT id="eng_WL_x_20200101_00000003">\<newline>''
       @ lit ''  <SOURCE_LANGUAGE>eng</SOURCE_LANGUAGE>\<newline>''
       @ lit ''  <GENRE>WL</GENRE>\<newline>''
       @ lit ''  <PROVENANCE>x</PROVENANCE>\<newline>''
       @ lit ''  <DATE>20200101</DATE>\<newline>''
       @ lit ''  <INDEX_ID>00000003</INDEX_ID>\<newline>''
       @ lit ''  <DIRECTION>fromsource</DIRECTION>\<newline>''\<close>
    by (simp add: document_head_five demo_args_def lit_def)
  have w: "stream_accepts True Stdout
         (document_head (demo_args []) (lit ''eng_WL_x_20200101_00000003'')
            [lit ''eng'', lit ''WL'', lit ''x'', lit ''20200101'', lit ''00000003''])"
    by (simp add: document_head_five demo_args_def)
  note t = read_error_closes_document [where fs = demo_fs and xml_ok = lxml_valid
      and a = "demo_args []" and st = no_output and rest = "[]" and fs' = demo_fs
      and strict = True, unfolded o, OF bad_parse w bad_node]
  have e: "output_of Stdout no_output = []" "stderr no_output = []"
    by (simp_all add: output_of_def no_output_def)
  have l: "[] @ lit ''bad/eng_WL_x_20200101_00000003.txt'' @ lit '' had a problem.\<newline>'' =
      lit ''bad/eng_WL_x_20200101_00000003.txt had a problem.\<newline>''"
    by (simp add: lit_def)
  obtain st' where p: "process_file True lxml_valid demo_fs (demo_args [])
                (lit ''bad/eng_WL_x_20200101_00000003.txt'') no_output = Inr st'"
    and x: "output_of Stdout st' =
             output_of Stdout no_output
             @ document_head (demo_args []) (lit ''eng_WL_x_20200101_00000003'')
                 [lit ''eng'', lit ''WL'', lit ''x'', lit ''20200101'', lit ''00000003'']
             @ concat (map tostring (segments lxml_valid (lit ''bad/eng_WL_x_20200101_00000003.txt'')
                 (lit ''eng_WL_x_20200101_00000003'') 0 0 [lit ''Hello\<newline>'']))
             @ lit ''</DOCUMENT>\<newline>''"
    and y: "stderr st' = stderr no_output @ lit ''bad/eng_WL_x_20200101_00000003.txt''
             @ lit '' had a problem.\<newline>''"
    using t by blast
  have y': "stderr st' = lit ''bad/eng_WL_x_20200101_00000003.txt had a problem.\<newline>''"
    using y unfolding e l .
  have x': \<open>output_of Stdout st' =
       lit ''<DOCUMENT id="eng_WL_x_20200101_00000003">\<newline>''
       @ lit ''  <SOURCE_LANGUAGE>eng</SOURCE_LANGUAGE>\<newline>''
       @ lit ''  <GENRE>WL</GENRE>\<newline>''
       @ lit ''  <PROVENANCE>x</PROVENANCE>\<newline>''
       @ lit ''  <DATE>20200101</DATE>\<newline>''
       @ lit ''  <INDEX_ID>00000003</INDEX_ID>\<newline>''
       @ lit ''  <DIRECTION>fromsource</DIRECTION>\<newline>''
       @ lit ''<SEGMENT>\<newline>''
       @ lit ''  <SOURCE id="eng_WL_x_20200101_00000003.0" start_char="0" end_char="4">\<newline>''
       @ lit ''    <FULL_ID_SOURCE>eng_WL_x_20200101_00000003</FULL_ID_SOURCE>\<newline>''
       @ lit ''    <ORIG_SEG_ID>segment-0</ORIG_SEG_ID>\<newline>''
       @ lit ''    <ORIG_FILENAME>eng_WL_x_20200101_00000003.txt</ORIG_FILENAME>\<newline>''
       @ lit ''    <MD5_HASH_SOURCE>8b1a9953c4611296a827abf8c47804d7</MD5_HASH_SOURCE>\<newline>''
       @ lit ''    <ORIG_RAW_SOURCE>Hello</ORIG_RAW_SOURCE>\<newline>''
       @ lit ''  </SOURCE>\<newline>''
       @ lit ''</SEGMENT>\<newline>''
       @ lit ''</DOCUMENT>\<newline>''\<close>
    using x unfolding h bad_segments e by (simp only: append_Nil append_assoc)
  show ?thesis
    using p y' x' by (intro conjI exI [of _ st']) (rule bad_parse w bad_node)+
qed

section \<open>Input resolution and whole runs\<close>

lemma contribution_cases:
  "(fs e = Missing \<longrightarrow>
      contribution fs e = [] \<and> missing_warning fs e = e @ lit '' not found; skipping\<newline>'')
   \<and> (fs e = Regular ls err \<longrightarrow> contribution fs e = [e] \<and> missing_warning fs e = [])
   \<and> (fs e = Directory names \<longrightarrow>
        contribution fs e = filter (os_path_isfile fs) (map (os_path_join e) names)
        \<and> missing_warning fs e = [])"
  by (simp add: contribution_def missing_warning_def)

text \<open>
  C8. Input resolution, for paths that are missing, regular files or listable directories:
  the resolved list is the concatenation, in the order of the given paths, of what each
  path contributes. A missing path contributes nothing and gets a warning, a regular file
  contributes itself, a directory contributes the regular files among its joined entries
  in listing order (so nothing below a subdirectory).
\<close>

theorem input_resolution:
  assumes "\<forall>e \<in> set entries. fs e \<noteq> Unlistable"
  shows "resolve_loop fs entries [] st =
           Inr (concat (map (contribution fs) entries),
                stderr_write (concat (map (missing_warning fs) entries)) st)
         \<and> (\<forall>e. fs e = Missing \<longrightarrow>
               contribution fs e = [] \<and> missing_warning fs e = e @ lit '' not found; skipping\<newline>'')
         \<and> (\<forall>e ls err. fs e = Regular ls err \<longrightarrow>
               contribution fs e = [e] \<and> missing_warning fs e = [])
         \<and> (\<forall>e names. fs e = Directory names \<longrightarrow>
               contribution fs e = filter (os_path_isfile fs) (map (os_path_join e) names)
               \<and> missing_warning fs e = [])"
  using resolve_loop_eq [OF assms, of "[]" st] contribution_cases [of fs] by simp

lemma demo_contribution_in:
  "contribution demo_fs (lit ''in'') =
     [lit ''in/eng_NW_abc123_20200101_00000001.txt'', lit ''in/notes.txt'']"
  by (simp add: contribution_def demo_fs_def demo_odd_name_def os_path_join_def os_path_isfile_def lit_def)

lemma demo_contribution_file:
  "contribution demo_fs (lit ''in/eng_NW_abc123_20200101_00000001.txt'') =
     [lit ''in/eng_NW_abc123_20200101_00000001.txt'']"
  by (simp add: contribution_def demo_fs_def demo_odd_name_def lit_def)

lemma demo_contribution_notes:
  "contribution demo_fs (lit ''in/notes.txt'') = [lit ''in/notes.txt'']"
  by (simp add: contribution_def demo_fs_def demo_odd_name_def lit_def)

lemma demo_contribution_nosuch: "contribution demo_fs (lit ''nosuch'') = []"
  by (simp add: contribution_def demo_fs_def demo_odd_name_def lit_def)

lemma demo_warning:
  "missing_warning demo_fs (lit ''in'') = []"
  "missing_warning demo_fs (lit ''in/eng_NW_abc123_20200101_00000001.txt'') = []"
  "missing_warning demo_fs (lit ''in/notes.txt'') = []"
  "missing_warning demo_fs (lit ''nosuch'') = lit ''nosuch not found; skipping\<newline>''"
  by (simp_all add: missing_warning_def demo_fs_def demo_odd_name_def lit_def)

lemma demo_listable:
  "demo_fs (lit ''in'') \<noteq> Unlistable"
  "demo_fs (lit ''in/eng_NW_abc123_20200101_00000001.txt'') \<noteq> Unlistable"
  "demo_fs (lit ''in/notes.txt'') \<noteq> Unlistable"
  "demo_fs (lit ''nosuch'') \<noteq> Unlistable"
  "demo_fs (lit ''A&B_NW_abc123_20200101_00000001.txt'') \<noteq> Unlistable"
  "demo_fs demo_odd_name \<noteq> Unlistable"
  by (simp_all add: demo_fs_def)

theorem input_resolution_witness:
  "demo_fs (lit ''nosuch'') = Missing
   \<and> demo_fs (lit ''in/eng_NW_abc123_20200101_00000001.txt'') =
       Regular [lit ''Hello\<newline>'', lit ''World\<newline>''] False
   \<and> demo_fs (lit ''in'') =
       Directory [lit ''eng_NW_abc123_20200101_00000001.txt'', lit ''notes.txt'', lit ''sub'']
   \<and> demo_fs (lit ''in/sub'') = Directory [lit ''eng_NW_abc123_20200101_00000002.txt'']
   \<and> resolve_loop demo_fs
        [lit ''in'', lit ''nosuch'', lit ''in/eng_NW_abc123_20200101_00000001.txt''] [] no_output =
       Inr ([lit ''in/eng_NW_abc123_20200101_00000001.txt'', lit ''in/notes.txt'',
             lit ''in/eng_NW_abc123_20200101_00000001.txt''],
            stderr_write (lit ''nosuch not found; skipping\<newline>'') no_output)"
proof -
  have h: "\<forall>e \<in> set [lit ''in'', lit ''nosuch'', lit ''in/eng_NW_abc123_20200101_00000001.txt''].
      demo_fs e \<noteq> Unlistable"
    using demo_listable by simp
  have r: "resolve_loop demo_fs
        [lit ''in'', lit ''nosuch'', lit ''in/eng_NW_abc123_20200101_00000001.txt''] [] no_output =
       Inr ([lit ''in/eng_NW_abc123_20200101_00000001.txt'', lit ''in/notes.txt'',
             lit ''in/eng_NW_abc123_20200101_00000001.txt''],
            stderr_write (lit ''nosuch not found; skipping\<newline>'') no_output)"
    unfolding input_resolution [OF h, of no_output, THEN conjunct1]
    by (simp only: list.map concat.simps demo_contribution_in demo_contribution_file
        demo_contribution_nosuch demo_warning append_Nil append_Nil2 append_Cons)
  have n: "demo_fs (lit ''nosuch'') = Missing"
    "demo_fs (lit ''in/eng_NW_abc123_20200101_00000001.txt'') =
       Regular [lit ''Hello\<newline>'', lit ''World\<newline>''] False"
    "demo_fs (lit ''in'') =
       Directory [lit ''eng_NW_abc123_20200101_00000001.txt'', lit ''notes.txt'', lit ''sub'']"
    "demo_fs (lit ''in/sub'') = Directory [lit ''eng_NW_abc123_20200101_00000002.txt'']"
    by (simp_all add: demo_fs_def demo_odd_name_def lit_def)
  show ?thesis
    by (intro conjI) (rule n r)+
qed


lemma debug_prefix:
  "output_of (outfile a) (if debug a then print workdir no_output else no_output) =
     (if debug a \<and> outfile a = Stdout then workdir @ [10] else [])"
  by (cases "outfile a") (simp_all add: output_of_def print_def no_output_def)

lemma run_output_eq:
  assumes "infiles a = Some entries" and "\<forall>e \<in> set entries. fs e \<noteq> Unlistable"
  shows "run_output strict xml_ok fs workdir a =
     (if run_encodable strict workdir a (concat (map (contribution fs) entries))
      then Some ((if debug a \<and> outfile a = Stdout then workdir @ [10] else [])
                 @ prolog a
                 @ concat (map (document_text xml_ok fs a) (concat (map (contribution fs) entries)))
                 @ epilog)
      else None)"
proof (cases "run_encodable strict workdir a (concat (map (contribution fs) entries))")
  case True
  show ?thesis
    unfolding run_output_def main_eq [OF assms]
    using True by (simp only: if_True sum.case output_of_emit debug_prefix append_assoc)
next
  case False
  show ?thesis
    unfolding run_output_def main_eq [OF assms]
    using False by (simp only: if_False sum.case)
qed

lemma run_artifact_eq:
  "run_artifact now strict xml_ok fs workdir a =
     (case run_output strict xml_ok fs workdir a of
        None \<Rightarrow> None
      | Some out \<Rightarrow>
          Some (if is_gz (dest_name (outfile a)) then Gzip (dest_name (outfile a)) now out
                else Text out))"
  by (simp add: run_artifact_def run_output_def artifact_of_def split: sum.splits)

lemma run_encodable_demo:
  assumes "list_all (\<lambda>f. parse_name f = None \<or> f = lit ''in/eng_NW_abc123_20200101_00000001.txt'')
             files"
  shows "run_encodable strict workdir (demo_args es) files"
    and "run_encodable strict workdir (demo_file_args name es) files"
proof -
  have h: "stream_accepts strict d (head_text a f)"
    if "parse_name f = None \<or> f = lit ''in/eng_NW_abc123_20200101_00000001.txt''"
      and "direction a = lit ''fromsource''" for d a f
    using that by (auto simp add: head_text_def demo_parse document_head_five)
  show "run_encodable strict workdir (demo_args es) files"
    using assms
    by (auto simp add: run_encodable_def demo_args_def list_all_iff intro!: h)
  show "run_encodable strict workdir (demo_file_args name es) files"
    using assms
    by (auto simp add: run_encodable_def demo_file_args_def list_all_iff intro!: h)
qed

text \<open>
  C10. In a run whose texts written outside the \<^verbatim>\<open>try\<close> blocks (the directory name with
  \<open>--debug\<close>, the language, the head of every well-named file) are texts its streams can
  encode, the resolved list is not deduplicated: the output holds, between prolog and
  epilog, the document of every element of the concatenated contributions, one per
  occurrence, and each document of a well-named file starts with the DOCUMENT tag
  carrying its DocumentId, so a file that occurs twice gives two DOCUMENT elements with
  the same id.
\<close>

theorem no_deduplication:
  assumes "infiles a = Some entries" and "\<forall>e \<in> set entries. fs e \<noteq> Unlistable"
    and "run_encodable strict workdir a (concat (map (contribution fs) entries))"
  shows \<open>run_output strict xml_ok fs workdir a =
           Some ((if debug a \<and> outfile a = Stdout then workdir @ [10] else [])
                 @ prolog a
                 @ concat (map (document_text xml_ok fs a) (concat (map (contribution fs) entries)))
                 @ epilog)
         \<and> length (concat (map (contribution fs) entries)) =
             sum_list (map (\<lambda>e. length (contribution fs e)) entries)
         \<and> (\<forall>infile fullid idtoks. parse_name infile = Some (fullid, idtoks) \<longrightarrow>
               (\<exists>more. document_text xml_ok fs a infile =
                   lit ''<DOCUMENT id="'' @ fullid @ lit ''">\<newline>'' @ more))\<close>
proof -
  have "length (concat (map (contribution fs) entries)) =
             sum_list (map (\<lambda>e. length (contribution fs e)) entries)"
    by (simp add: length_concat comp_def)
  moreover have \<open>run_output strict xml_ok fs workdir a =
           Some ((if debug a \<and> outfile a = Stdout then workdir @ [10] else [])
                 @ prolog a
                 @ concat (map (document_text xml_ok fs a) (concat (map (contribution fs) entries)))
                 @ epilog)\<close>
    unfolding run_output_eq [OF assms(1,2)] using assms(3) by (simp only: if_True)
  ultimately show ?thesis
    using document_text_starts by blast
qed

theorem no_deduplication_witness:
  \<open>infiles (demo_file_args (lit ''out.xml'') [lit ''in/eng_NW_abc123_20200101_00000001.txt'', lit ''in'']) =
     Some [lit ''in/eng_NW_abc123_20200101_00000001.txt'', lit ''in'']
   \<and> demo_fs (lit ''in/eng_NW_abc123_20200101_00000001.txt'') \<noteq> Unlistable
   \<and> demo_fs (lit ''in'') \<noteq> Unlistable
   \<and> run_encodable True (lit ''/tmp/flat2elisa.pyk3x9ab_q'')
        (demo_file_args (lit ''out.xml'') [lit ''in/eng_NW_abc123_20200101_00000001.txt'', lit ''in''])
        [lit ''in/eng_NW_abc123_20200101_00000001.txt'',
         lit ''in/eng_NW_abc123_20200101_00000001.txt'', lit ''in/notes.txt'']
   \<and> parse_name (lit ''in/eng_NW_abc123_20200101_00000001.txt'') =
       Some (lit ''eng_NW_abc123_20200101_00000001'',
             [lit ''eng'', lit ''NW'', lit ''abc123'', lit ''20200101'', lit ''00000001''])
   \<and> (\<exists>more.
        run_output True lxml_valid demo_fs (lit ''/tmp/flat2elisa.pyk3x9ab_q'')
          (demo_file_args (lit ''out.xml'') [lit ''in/eng_NW_abc123_20200101_00000001.txt'', lit ''in'']) =
        Some (prolog (demo_file_args (lit ''out.xml'') [lit ''in/eng_NW_abc123_20200101_00000001.txt'', lit ''in''])
              @ (lit ''<DOCUMENT id="eng_NW_abc123_20200101_00000001">\<newline>'' @ more)
              @ (lit ''<DOCUMENT id="eng_NW_abc123_20200101_00000001">\<newline>'' @ more)
              @ epilog))\<close>
proof -
  let ?f = "lit ''in/eng_NW_abc123_20200101_00000001.txt''"
  let ?a = "demo_file_args (lit ''out.xml'') [?f, lit ''in'']"
  let ?w = "lit ''/tmp/flat2elisa.pyk3x9ab_q''"
  have i: "infiles ?a = Some [?f, lit ''in'']"
    by (simp add: demo_file_args_def)
  have u: "\<forall>e \<in> set [?f, lit ''in'']. demo_fs e \<noteq> Unlistable"
    using demo_listable by simp
  have d: "\<not> debug ?a"
    by (simp add: demo_file_args_def)
  have c: "concat (map (contribution demo_fs) [?f, lit ''in'']) = [?f, ?f, lit ''in/notes.txt'']"
    by (simp only: list.map concat.simps demo_contribution_in demo_contribution_file
        append_Nil append_Nil2 append_Cons)
  have e: "run_encodable True ?w ?a [?f, ?f, lit ''in/notes.txt'']"
    by (rule run_encodable_demo) (simp add: notes_parse)
  have e': "run_encodable True ?w ?a (concat (map (contribution demo_fs) [?f, lit ''in'']))"
    unfolding c by (rule e)
  note t = no_deduplication [OF i u e', of lxml_valid]
  obtain more where m0: \<open>document_text lxml_valid demo_fs ?a ?f =
      lit ''<DOCUMENT id="'' @ lit ''eng_NW_abc123_20200101_00000001'' @ lit ''">\<newline>'' @ more\<close>
    using t [THEN conjunct2, THEN conjunct2] demo_parse by blast
  have m: \<open>document_text lxml_valid demo_fs ?a ?f =
      lit ''<DOCUMENT id="eng_NW_abc123_20200101_00000001">\<newline>'' @ more\<close>
    unfolding m0 by (simp add: lit_def)
  have n: "document_text lxml_valid demo_fs ?a (lit ''in/notes.txt'') = []"
    by (rule document_text_skipped [OF notes_parse])
  have \<open>run_output True lxml_valid demo_fs ?w ?a =
        Some (prolog ?a
              @ (lit ''<DOCUMENT id="eng_NW_abc123_20200101_00000001">\<newline>'' @ more)
              @ (lit ''<DOCUMENT id="eng_NW_abc123_20200101_00000001">\<newline>'' @ more)
              @ epilog)\<close>
    unfolding t [THEN conjunct1]
    by (simp only: list.map concat.simps demo_contribution_in demo_contribution_file
        append_Nil append_Nil2 append_Cons append_assoc m n d if_False simp_thms)
  then show ?thesis
    using i demo_listable(1,2) demo_parse e by blast
qed

lemma resolve_loop_listable:
  "resolve_loop fs entries acc st = Inr r \<Longrightarrow> \<forall>e \<in> set entries. fs e \<noteq> Unlistable"
proof (induction entries arbitrary: acc st)
  case Nil
  show ?case by simp
next
  case (Cons e es)
  show ?case
  proof (cases "fs e")
    case Missing
    then show ?thesis
      using Cons by (auto simp add: os_path_exists_def)
  next
    case (Regular ls err)
    then show ?thesis
      using Cons by (auto simp add: os_path_exists_def os_path_isfile_def)
  next
    case (Directory names)
    then show ?thesis
      using Cons by (auto simp add: os_path_exists_def os_path_isfile_def os_listdir_def)
  next
    case Unlistable
    then show ?thesis
      using Cons.prems by (simp add: os_path_exists_def os_path_isfile_def os_listdir_def)
  qed
qed

lemma resolve_loop_files:
  assumes "resolve_loop fs entries [] st = Inr (files, st')"
  shows "(\<forall>e \<in> set entries. fs e \<noteq> Unlistable) \<and> files = concat (map (contribution fs) entries)"
proof -
  have l: "\<forall>e \<in> set entries. fs e \<noteq> Unlistable"
    using resolve_loop_listable [OF assms] .
  then show ?thesis
    using resolve_loop_eq [OF l, of "[]" st] assms by simp
qed

lemma head_text_cong:
  "direction a1 = direction a2 \<Longrightarrow> head_text a1 f = head_text a2 f"
  by (simp add: head_text_def document_head_def split: option.splits)

lemma document_text_cong:
  assumes "readlines fs1 f = readlines fs2 f" and "direction a1 = direction a2"
  shows "document_text xml_ok fs1 a1 f = document_text xml_ok fs2 a2 f"
  using assms by (simp add: document_text_def document_head_def split: option.splits)

lemma documents_cong:
  assumes "\<forall>f \<in> set files. readlines fs1 f = readlines fs2 f" and "direction a1 = direction a2"
  shows "concat (map (document_text xml_ok fs1 a1) files) =
         concat (map (document_text xml_ok fs2 a2) files)"
  using assms(1)
proof (induction files)
  case Nil
  show ?case by simp
next
  case (Cons f files)
  have "document_text xml_ok fs1 a1 f = document_text xml_ok fs2 a2 f"
    using Cons.prems assms(2) by (intro document_text_cong) simp_all
  then show ?case using Cons by simp
qed

text \<open>
  C9, amended. Two runs with the same resolved file list, the same lines read from each
  of these files and the same \<open>--language\<close> and \<open>--direction\<close> both succeed and leave
  the same bytes in their output destinations, provided that neither of them is run with
  \<open>--debug\<close> while writing to standard output, that neither writes to a file whose name
  ends in \<open>.gz\<close>, and that in each the texts written outside the \<^verbatim>\<open>try\<close> blocks are
  texts its streams can encode.
\<close>

theorem deterministic_output:
  assumes "infiles a1 = Some es1" and "infiles a2 = Some es2"
    and "resolve_loop fs1 es1 [] no_output = Inr (files, s1)"
    and "resolve_loop fs2 es2 [] no_output = Inr (files, s2)"
    and "\<forall>f \<in> set files. readlines fs1 f = readlines fs2 f"
    and "language a1 = language a2" and "direction a1 = direction a2"
    and "\<not> (debug a1 \<and> outfile a1 = Stdout)" and "\<not> (debug a2 \<and> outfile a2 = Stdout)"
    and "\<not> is_gz (dest_name (outfile a1))" and "\<not> is_gz (dest_name (outfile a2))"
    and "run_encodable strict1 workdir1 a1 files"
    and "run_encodable strict2 workdir2 a2 files"
  shows "\<exists>out. run_artifact now1 strict1 xml_ok fs1 workdir1 a1 = Some (Text out)
             \<and> run_artifact now2 strict2 xml_ok fs2 workdir2 a2 = Some (Text out)"
proof -
  note r1 = resolve_loop_files [OF assms(3)] and r2 = resolve_loop_files [OF assms(4)]
  have p: "prolog a1 = prolog a2"
    using assms(6) by (simp add: prolog_def)
  have d: "concat (map (document_text xml_ok fs1 a1) files) =
           concat (map (document_text xml_ok fs2 a2) files)"
    using documents_cong [OF assms(5) assms(7)] .
  have o1: "run_output strict1 xml_ok fs1 workdir1 a1 =
      Some (prolog a1 @ concat (map (document_text xml_ok fs1 a1) files) @ epilog)"
    using run_output_eq [OF assms(1) r1 [THEN conjunct1], of strict1 xml_ok workdir1] r1
      assms(8) assms(12)
    by simp
  have o2: "run_output strict2 xml_ok fs2 workdir2 a2 =
      Some (prolog a1 @ concat (map (document_text xml_ok fs1 a1) files) @ epilog)"
    using run_output_eq [OF assms(2) r2 [THEN conjunct1], of strict2 xml_ok workdir2] r2
      assms(9) assms(13) p d
    by simp
  show ?thesis
    unfolding run_artifact_eq o1 o2 using assms(10,11) by simp
qed

lemma debug_run:
  "run_output True lxml_valid demo_fs (lit w) (demo_debug_args [lit ''in'']) =
     Some (lit w @ [10] @ prolog (demo_debug_args [lit ''in''])
           @ concat (map (document_text lxml_valid demo_fs (demo_debug_args [lit ''in'']))
                      (concat (map (contribution demo_fs) [lit ''in''])))
           @ epilog)"
proof -
  have i: "infiles (demo_debug_args [lit ''in'']) = Some [lit ''in'']"
    by (simp add: demo_debug_args_def)
  have u: "\<forall>e \<in> set [lit ''in'']. demo_fs e \<noteq> Unlistable"
    using demo_listable by simp
  have h: "stream_accepts True d (head_text (demo_debug_args [lit ''in'']) f)"
    if "f = lit ''in/eng_NW_abc123_20200101_00000001.txt'' \<or> f = lit ''in/notes.txt''" for f d
    using that
    by (auto simp add: head_text_def demo_parse notes_parse document_head_five
        demo_debug_args_def)
  have l: "language (demo_debug_args [lit ''in'']) = lit ''eng''"
    by (simp add: demo_debug_args_def)
  have e: "run_encodable True (lit w) (demo_debug_args [lit ''in''])
      (concat (map (contribution demo_fs) [lit ''in'']))"
    by (simp add: run_encodable_def demo_contribution_in h l)
  show ?thesis
    using run_output_eq [OF i u, of True lxml_valid "lit w"] e
    by (simp add: demo_debug_args_def)
qed

lemma gz_run:
  "\<exists>out. run_output True lxml_valid demo_fs w (demo_file_args (lit ''out.xml.gz'') [lit ''in''])
     = Some out"
proof -
  have i: "infiles (demo_file_args (lit ''out.xml.gz'') [lit ''in'']) = Some [lit ''in'']"
    by (simp add: demo_file_args_def)
  have u: "\<forall>e \<in> set [lit ''in'']. demo_fs e \<noteq> Unlistable"
    using demo_listable by simp
  have e: "run_encodable True w (demo_file_args (lit ''out.xml.gz'') [lit ''in''])
      (concat (map (contribution demo_fs) [lit ''in'']))"
    unfolding concat.simps list.map demo_contribution_in append_Nil2
    by (rule run_encodable_demo) (simp add: notes_parse)
  show ?thesis
    using run_output_eq [OF i u, of True lxml_valid w] e by simp
qed

lemma gz_name: "is_gz (dest_name (outfile (demo_file_args (lit ''out.xml.gz'') es)))"
  by (simp add: demo_file_args_def dest_name_def is_gz_def lit_def)

text \<open>
  Two runs with \<open>--debug\<close> and the same arguments differ in the directory name that
  \<^verbatim>\<open>print(workdir)\<close> puts ahead of the XML on standard output; two runs with the same
  arguments into a \<open>.gz\<close> file differ in the time of the gzip header.
\<close>

theorem debug_output_counterexample:
  "run_artifact 1700000000 True lxml_valid demo_fs (lit ''/tmp/flat2elisa.pyk3x9ab_q'')
      (demo_debug_args [lit ''in''])
   \<noteq> run_artifact 1700000000 True lxml_valid demo_fs (lit ''/tmp/flat2elisa.py7w2m_hzd'')
      (demo_debug_args [lit ''in''])
   \<and> run_artifact 1700000000 True lxml_valid demo_fs (lit ''/tmp/flat2elisa.pyk3x9ab_q'')
      (demo_file_args (lit ''out.xml.gz'') [lit ''in''])
   \<noteq> run_artifact 1700000060 True lxml_valid demo_fs (lit ''/tmp/flat2elisa.pyk3x9ab_q'')
      (demo_file_args (lit ''out.xml.gz'') [lit ''in''])"
proof (rule conjI)
  have n: "lit ''/tmp/flat2elisa.pyk3x9ab_q'' \<noteq> lit ''/tmp/flat2elisa.py7w2m_hzd''"
    by (simp add: lit_def)
  have l: "length (lit ''/tmp/flat2elisa.pyk3x9ab_q'') = length (lit ''/tmp/flat2elisa.py7w2m_hzd'')"
    by (simp add: lit_def)
  have g: "\<not> is_gz (dest_name (outfile (demo_debug_args [lit ''in''])))"
    by (simp add: demo_debug_args_def dest_name_def is_gz_def lit_def)
  show "run_artifact 1700000000 True lxml_valid demo_fs (lit ''/tmp/flat2elisa.pyk3x9ab_q'')
      (demo_debug_args [lit ''in''])
   \<noteq> run_artifact 1700000000 True lxml_valid demo_fs (lit ''/tmp/flat2elisa.py7w2m_hzd'')
      (demo_debug_args [lit ''in''])"
    unfolding run_artifact_eq debug_run using n l g
    by (simp only: option.case option.inject artifact.inject if_False append_eq_append_conv
        simp_thms)
next
  obtain out where o: "run_output True lxml_valid demo_fs (lit ''/tmp/flat2elisa.pyk3x9ab_q'')
      (demo_file_args (lit ''out.xml.gz'') [lit ''in'']) = Some out"
    using gz_run by blast
  show "run_artifact 1700000000 True lxml_valid demo_fs (lit ''/tmp/flat2elisa.pyk3x9ab_q'')
      (demo_file_args (lit ''out.xml.gz'') [lit ''in''])
   \<noteq> run_artifact 1700000060 True lxml_valid demo_fs (lit ''/tmp/flat2elisa.pyk3x9ab_q'')
      (demo_file_args (lit ''out.xml.gz'') [lit ''in''])"
    unfolding run_artifact_eq o using gz_name [of "[lit ''in'']"] by simp
qed

theorem deterministic_output_witness:
  "infiles (demo_args [lit ''in'']) = Some [lit ''in'']
   \<and> infiles (demo_file_args (lit ''out.xml'')
        [lit ''in/eng_NW_abc123_20200101_00000001.txt'', lit ''in/notes.txt'']) =
       Some [lit ''in/eng_NW_abc123_20200101_00000001.txt'', lit ''in/notes.txt'']
   \<and> resolve_loop demo_fs [lit ''in''] [] no_output =
       Inr ([lit ''in/eng_NW_abc123_20200101_00000001.txt'', lit ''in/notes.txt''], no_output)
   \<and> resolve_loop demo_fs [lit ''in/eng_NW_abc123_20200101_00000001.txt'', lit ''in/notes.txt'']
         [] no_output =
       Inr ([lit ''in/eng_NW_abc123_20200101_00000001.txt'', lit ''in/notes.txt''], no_output)
   \<and> debug (demo_args [lit ''in'']) = False
   \<and> debug (demo_file_args (lit ''out.xml'')
        [lit ''in/eng_NW_abc123_20200101_00000001.txt'', lit ''in/notes.txt'']) = False
   \<and> is_gz (dest_name (outfile (demo_args [lit ''in'']))) = False
   \<and> is_gz (dest_name (outfile (demo_file_args (lit ''out.xml'')
        [lit ''in/eng_NW_abc123_20200101_00000001.txt'', lit ''in/notes.txt'']))) = False
   \<and> run_encodable True (lit ''/tmp/flat2elisa.pyk3x9ab_q'') (demo_args [lit ''in''])
        [lit ''in/eng_NW_abc123_20200101_00000001.txt'', lit ''in/notes.txt'']
   \<and> run_encodable True (lit ''/tmp/flat2elisa.py7w2m_hzd'')
        (demo_file_args (lit ''out.xml'')
           [lit ''in/eng_NW_abc123_20200101_00000001.txt'', lit ''in/notes.txt''])
        [lit ''in/eng_NW_abc123_20200101_00000001.txt'', lit ''in/notes.txt'']
   \<and> (\<exists>out. run_artifact 1700000000 True lxml_valid demo_fs (lit ''/tmp/flat2elisa.pyk3x9ab_q'')
                (demo_args [lit ''in'']) = Some (Text out)
             \<and> run_artifact 1700000060 True lxml_valid demo_fs (lit ''/tmp/flat2elisa.py7w2m_hzd'')
                (demo_file_args (lit ''out.xml'')
                   [lit ''in/eng_NW_abc123_20200101_00000001.txt'', lit ''in/notes.txt''])
               = Some (Text out))"
proof -
  let ?f = "lit ''in/eng_NW_abc123_20200101_00000001.txt''"
  let ?n = "lit ''in/notes.txt''"
  let ?a1 = "demo_args [lit ''in'']"
  let ?a2 = "demo_file_args (lit ''out.xml'') [?f, ?n]"
  have i1: "infiles ?a1 = Some [lit ''in'']"
    and i2: "infiles ?a2 = Some [?f, ?n]"
    by (simp_all add: demo_args_def demo_file_args_def)
  have e: "stderr_write [] no_output = no_output"
    by (simp add: stderr_write_def no_output_def)
  have u1: "\<forall>e \<in> set [lit ''in'']. demo_fs e \<noteq> Unlistable"
    and u2: "\<forall>e \<in> set [?f, ?n]. demo_fs e \<noteq> Unlistable"
    using demo_listable by simp_all
  have r1: "resolve_loop demo_fs [lit ''in''] [] no_output = Inr ([?f, ?n], no_output)"
    unfolding resolve_loop_eq [OF u1]
    by (simp only: list.map concat.simps demo_contribution_in demo_warning append_Nil
        append_Nil2 e)
  have r2: "resolve_loop demo_fs [?f, ?n] [] no_output = Inr ([?f, ?n], no_output)"
    unfolding resolve_loop_eq [OF u2]
    by (simp only: list.map concat.simps demo_contribution_file demo_contribution_notes
        demo_warning append_Nil append_Nil2 append_Cons e)
  have d1: "\<not> (debug ?a1 \<and> outfile ?a1 = Stdout)"
    and d2: "\<not> (debug ?a2 \<and> outfile ?a2 = Stdout)"
    by (simp_all add: demo_args_def demo_file_args_def)
  have z1: "is_gz (dest_name (outfile ?a1)) = False"
    and z2: "is_gz (dest_name (outfile ?a2)) = False"
    by (simp_all add: demo_args_def demo_file_args_def dest_name_def is_gz_def lit_def)
  have z1': "\<not> is_gz (dest_name (outfile ?a1))" and z2': "\<not> is_gz (dest_name (outfile ?a2))"
    using z1 z2 by simp_all
  have c: "\<forall>f \<in> set [?f, ?n]. readlines demo_fs f = readlines demo_fs f"
    by simp
  have l: "language ?a1 = language ?a2"
    and k: "direction ?a1 = direction ?a2"
    by (simp_all add: demo_args_def demo_file_args_def)
  have x1: "run_encodable True (lit ''/tmp/flat2elisa.pyk3x9ab_q'') ?a1 [?f, ?n]"
    and x2: "run_encodable True (lit ''/tmp/flat2elisa.py7w2m_hzd'') ?a2 [?f, ?n]"
    by (rule run_encodable_demo, simp add: notes_parse)+
  note t = deterministic_output [where xml_ok = lxml_valid and ?now1.0 = 1700000000
      and ?now2.0 = 1700000060, OF i1 i2 r1 r2 c l k d1 d2 z1' z2' x1 x2]
  have g: "debug ?a1 = False" "debug ?a2 = False"
    by (simp_all add: demo_args_def demo_file_args_def)
  show ?thesis
    by (intro conjI) (rule i1 i2 r1 r2 g z1 z2 x1 x2 t)+
qed

section \<open>A file name that is not UTF-8\<close>

text \<open>
  The head of a file is written outside the \<^verbatim>\<open>try\<close> blocks. For a file whose name holds
  a byte that is not UTF-8, a run into a file ends in UnicodeEncodeError at line 107,
  before any end tag is written; a run whose standard output replaces what it cannot
  encode returns.
\<close>

lemma odd_node: "demo_fs demo_odd_name = Regular [lit ''Hello\<newline>''] False"
  by (simp add: demo_fs_def) (simp add: demo_odd_name_def lit_def)

lemma odd_contribution: "contribution demo_fs demo_odd_name = [demo_odd_name]"
  by (simp add: contribution_def odd_node)

lemma odd_run_raises:
  "main True lxml_valid demo_fs workdir (demo_file_args name [demo_odd_name]) =
     Inl UnicodeEncodeError"
proof -
  have i: "infiles (demo_file_args name [demo_odd_name]) = Some [demo_odd_name]"
    by (simp add: demo_file_args_def)
  have u: "\<forall>e \<in> set [demo_odd_name]. demo_fs e \<noteq> Unlistable"
    using demo_listable by simp
  have o: "outfile (demo_file_args name [demo_odd_name]) = OutFile name"
    by (simp add: demo_file_args_def)
  have "\<not> run_encodable True workdir (demo_file_args name [demo_odd_name])
      (concat (map (contribution demo_fs) [demo_odd_name]))"
    using odd_head [of name "demo_file_args name [demo_odd_name]"]
    by (simp add: run_encodable_def odd_contribution o)
  then show ?thesis
    unfolding main_eq [OF i u] by (simp only: if_False)
qed

lemma odd_run_lenient:
  "\<exists>st. main False lxml_valid demo_fs workdir (demo_args [demo_odd_name]) = Inr st"
proof -
  have i: "infiles (demo_args [demo_odd_name]) = Some [demo_odd_name]"
    by (simp add: demo_args_def)
  have u: "\<forall>e \<in> set [demo_odd_name]. demo_fs e \<noteq> Unlistable"
    using demo_listable by simp
  have "run_encodable False workdir (demo_args [demo_odd_name])
      (concat (map (contribution demo_fs) [demo_odd_name]))"
    by (simp add: run_encodable_def odd_contribution stream_accepts_def demo_args_def)
  then show ?thesis
    unfolding main_eq [OF i u] by simp
qed

section \<open>Escaping\<close>

lemma xml_unescape_text_char:
  "xml_unescape (escape_text_char c @ s) = c # xml_unescape s"
  by (simp add: escape_text_char_def lit_def)

lemma text_round_trip: "xml_unescape (escape_text s) = s"
  by (induction s) (simp_all add: escape_text_def xml_unescape_text_char del: xml_unescape.simps(2))

lemma xml_unescape_attr_char:
  "xml_unescape (escape_attr_char c @ s) = c # xml_unescape s"
  by (simp add: escape_attr_char_def lit_def)

lemma attr_round_trip: "xml_unescape (escape_attr s) = s"
  by (induction s) (simp_all add: escape_attr_def xml_unescape_attr_char del: xml_unescape.simps(2))

lemma raw_source_round_trip:
  assumes "make_segment xml_ok infile fullid ln cs raw = Some (seg, nxt)"
  shows "\<exists>before after.
           tostring seg =
             before @ lit ''<ORIG_RAW_SOURCE>'' @ escape_text (strip raw)
             @ lit ''</ORIG_RAW_SOURCE>\<newline>'' @ after
         \<and> xml_unescape (escape_text (strip raw)) = strip raw"
proof -
  obtain h where t: \<open>tostring seg =
                lit ''<SEGMENT>\<newline>''
                @ lit ''  <SOURCE id="'' @ escape_attr (fullid @ lit ''.'' @ str_nat ln)
                @ lit ''" start_char="'' @ escape_attr (str_int cs)
                @ lit ''" end_char="''
                @ escape_attr (str_int (cs + int (length (strip raw)) - 1))
                @ lit ''">\<newline>''
                @ lit ''    <FULL_ID_SOURCE>'' @ escape_text fullid @ lit ''</FULL_ID_SOURCE>\<newline>''
                @ lit ''    <ORIG_SEG_ID>'' @ escape_text (lit ''segment-'' @ str_nat ln)
                @ lit ''</ORIG_SEG_ID>\<newline>''
                @ lit ''    <ORIG_FILENAME>'' @ escape_text (basename infile)
                @ lit ''</ORIG_FILENAME>\<newline>''
                @ lit ''    <MD5_HASH_SOURCE>'' @ escape_text h @ lit ''</MD5_HASH_SOURCE>\<newline>''
                @ lit ''    <ORIG_RAW_SOURCE>'' @ escape_text (strip raw)
                @ lit ''</ORIG_RAW_SOURCE>\<newline>''
                @ lit ''  </SOURCE>\<newline>''
                @ lit ''</SEGMENT>\<newline>''\<close>
    using segment_shape_text [OF assms] by blast
  have l: "lit ''    <ORIG_RAW_SOURCE>'' = lit ''    '' @ lit ''<ORIG_RAW_SOURCE>''"
    by (simp add: lit_def)
  show ?thesis
    unfolding t l text_round_trip
    by (rule exI [of _ \<open>lit ''<SEGMENT>\<newline>''
                @ lit ''  <SOURCE id="'' @ escape_attr (fullid @ lit ''.'' @ str_nat ln)
                @ lit ''" start_char="'' @ escape_attr (str_int cs)
                @ lit ''" end_char="''
                @ escape_attr (str_int (cs + int (length (strip raw)) - 1))
                @ lit ''">\<newline>''
                @ lit ''    <FULL_ID_SOURCE>'' @ escape_text fullid @ lit ''</FULL_ID_SOURCE>\<newline>''
                @ lit ''    <ORIG_SEG_ID>'' @ escape_text (lit ''segment-'' @ str_nat ln)
                @ lit ''</ORIG_SEG_ID>\<newline>''
                @ lit ''    <ORIG_FILENAME>'' @ escape_text (basename infile)
                @ lit ''</ORIG_FILENAME>\<newline>''
                @ lit ''    <MD5_HASH_SOURCE>'' @ escape_text h @ lit ''</MD5_HASH_SOURCE>\<newline>''
                @ lit ''    ''\<close>],
        rule exI [of _ "lit ''  </SOURCE>\<newline>'' @ lit ''</SEGMENT>\<newline>''"])
      (simp only: append_assoc simp_thms)
qed

lemma amp_parse:
  "parse_name (lit ''A&B_NW_abc123_20200101_00000001.txt'') =
     Some (lit ''A&B_NW_abc123_20200101_00000001'',
           [lit ''A&B'', lit ''NW'', lit ''abc123'', lit ''20200101'', lit ''00000001''])"
  by (simp add: parse_name_def fullidfields_def eval_simps)

lemma amp_segments_elements:
  "segments lxml_valid (lit ''A&B_NW_abc123_20200101_00000001.txt'') (lit ''A&B_NW_abc123_20200101_00000001'') 0 0
      [lit ''Hello\<newline>''] =
   [Element (lit ''SEGMENT'') [] None
      [Element (lit ''SOURCE'')
         [(lit ''id'', lit ''A&B_NW_abc123_20200101_00000001.0''),
          (lit ''start_char'', lit ''0''),
          (lit ''end_char'', lit ''4'')]
         None
         [Element (lit ''FULL_ID_SOURCE'') [] (Some (lit ''A&B_NW_abc123_20200101_00000001'')) [],
          Element (lit ''ORIG_SEG_ID'') [] (Some (lit ''segment-0'')) [],
          Element (lit ''ORIG_FILENAME'') [] (Some (lit ''A&B_NW_abc123_20200101_00000001.txt'')) [],
          Element (lit ''MD5_HASH_SOURCE'') [] (Some (lit ''8b1a9953c4611296a827abf8c47804d7'')) [],
          Element (lit ''ORIG_RAW_SOURCE'') [] (Some (lit ''Hello'')) []]]]"
  by (simp add: eval_simps md5_hello)

lemma amp_segments:
  \<open>concat (map tostring (segments lxml_valid (lit ''A&B_NW_abc123_20200101_00000001.txt'')
      (lit ''A&B_NW_abc123_20200101_00000001'') 0 0 [lit ''Hello\<newline>''])) =
    lit ''<SEGMENT>\<newline>''
    @ lit ''  <SOURCE id="A&amp;B_NW_abc123_20200101_00000001.0" start_char="0" end_char="4">\<newline>''
    @ lit ''    <FULL_ID_SOURCE>A&amp;B_NW_abc123_20200101_00000001</FULL_ID_SOURCE>\<newline>''
    @ lit ''    <ORIG_SEG_ID>segment-0</ORIG_SEG_ID>\<newline>''
    @ lit ''    <ORIG_FILENAME>A&amp;B_NW_abc123_20200101_00000001.txt</ORIG_FILENAME>\<newline>''
    @ lit ''    <MD5_HASH_SOURCE>8b1a9953c4611296a827abf8c47804d7</MD5_HASH_SOURCE>\<newline>''
    @ lit ''    <ORIG_RAW_SOURCE>Hello</ORIG_RAW_SOURCE>\<newline>''
    @ lit ''  </SOURCE>\<newline>''
    @ lit ''</SEGMENT>\<newline>''\<close>
proof -
  have a: "escape_attr (lit ''A&B_NW_abc123_20200101_00000001.0'') = lit ''A&amp;B_NW_abc123_20200101_00000001.0''"
    by (simp add: escape_attr_def escape_attr_char_def lit_def)
  have b: "escape_attr (lit ''0'') = lit ''0''" "escape_attr (lit ''4'') = lit ''4''"
    by (rule escape_attr_plain, simp add: lit_def)+
  have c: "escape_text (lit ''A&B_NW_abc123_20200101_00000001'') = lit ''A&amp;B_NW_abc123_20200101_00000001''"
    "escape_text (lit ''A&B_NW_abc123_20200101_00000001.txt'') = lit ''A&amp;B_NW_abc123_20200101_00000001.txt''"
    by (simp_all add: escape_text_def escape_text_char_def lit_def)
  have t: "escape_text (lit ''segment-0'') = lit ''segment-0''"
    "escape_text (lit ''8b1a9953c4611296a827abf8c47804d7'') = lit ''8b1a9953c4611296a827abf8c47804d7''"
    "escape_text (lit ''Hello'') = lit ''Hello''"
    by (rule escape_text_plain, simp add: lit_def)+
  show ?thesis
    unfolding amp_segments_elements
    by (simp only: list.map concat.simps append_Nil2 tostring_segment a b c t) (simp add: lit_def)
qed

text \<open>
  C4. The DOCUMENT start tag and the five token elements are written with string
  formatting, not through the serialiser: for a file named \<open>A&B_NW_abc123_20200101_00000001.txt\<close> the
  output holds the ampersand of the DocumentId as it is in \<open>id="A&B_NW_abc123_20200101_00000001"\<close> and
  in SOURCE_LANGUAGE, while the same DocumentId is escaped where the serialiser writes it,
  in the \<open>id\<close> of SOURCE and in FULL_ID_SOURCE.
\<close>

theorem document_head_not_escaped:
  \<open>run_output strict lxml_valid demo_fs (lit ''/tmp/flat2elisa.pyk3x9ab_q'')
     (demo_args [lit ''A&B_NW_abc123_20200101_00000001.txt'']) =
   Some (lit ''<?xml version="1.0" encoding="UTF-8"?>\<newline>''
         @ lit ''<!DOCTYPE ELISA_LRLP_CORPUS SYSTEM "elisa.lrlp.v1.1.dtd">\<newline>''
         @ lit ''<ELISA_LRLP_CORPUS source_language="eng">\<newline>''
         @ lit ''<DOCUMENT id="A&B_NW_abc123_20200101_00000001">\<newline>''
         @ lit ''  <SOURCE_LANGUAGE>A&B</SOURCE_LANGUAGE>\<newline>''
         @ lit ''  <GENRE>NW</GENRE>\<newline>''
         @ lit ''  <PROVENANCE>abc123</PROVENANCE>\<newline>''
         @ lit ''  <DATE>20200101</DATE>\<newline>''
         @ lit ''  <INDEX_ID>00000001</INDEX_ID>\<newline>''
         @ lit ''  <DIRECTION>fromsource</DIRECTION>\<newline>''
         @ lit ''<SEGMENT>\<newline>''
         @ lit ''  <SOURCE id="A&amp;B_NW_abc123_20200101_00000001.0" start_char="0" end_char="4">\<newline>''
         @ lit ''    <FULL_ID_SOURCE>A&amp;B_NW_abc123_20200101_00000001</FULL_ID_SOURCE>\<newline>''
         @ lit ''    <ORIG_SEG_ID>segment-0</ORIG_SEG_ID>\<newline>''
         @ lit ''    <ORIG_FILENAME>A&amp;B_NW_abc123_20200101_00000001.txt</ORIG_FILENAME>\<newline>''
         @ lit ''    <MD5_HASH_SOURCE>8b1a9953c4611296a827abf8c47804d7</MD5_HASH_SOURCE>\<newline>''
         @ lit ''    <ORIG_RAW_SOURCE>Hello</ORIG_RAW_SOURCE>\<newline>''
         @ lit ''  </SOURCE>\<newline>''
         @ lit ''</SEGMENT>\<newline>''
         @ lit ''</DOCUMENT>\<newline>''
         @ lit ''</ELISA_LRLP_CORPUS>\<newline>'')\<close>
proof -
  let ?f = "lit ''A&B_NW_abc123_20200101_00000001.txt''"
  let ?a = "demo_args [?f]"
  have i: "infiles ?a = Some [?f]"
    by (simp add: demo_args_def)
  have u: "\<forall>e \<in> set [?f]. demo_fs e \<noteq> Unlistable"
    using demo_listable by simp
  have d: "\<not> debug ?a"
    by (simp add: demo_args_def)
  have c: "contribution demo_fs ?f = [?f]"
    by (simp add: contribution_def demo_fs_def lit_def)
  have e: "run_encodable strict (lit ''/tmp/flat2elisa.pyk3x9ab_q'') ?a
      (concat (map (contribution demo_fs) [?f]))"
    by (simp add: c run_encodable_def head_text_def amp_parse document_head_five demo_args_def)
  have r: "fst (readlines demo_fs ?f) = [lit ''Hello\<newline>'']"
    by (simp add: readlines_def demo_fs_def lit_def)
  have h: \<open>document_head ?a (lit ''A&B_NW_abc123_20200101_00000001'')
              [lit ''A&B'', lit ''NW'', lit ''abc123'', lit ''20200101'', lit ''00000001''] =
       lit ''<DOCUMENT id="A&B_NW_abc123_20200101_00000001">\<newline>''
       @ lit ''  <SOURCE_LANGUAGE>A&B</SOURCE_LANGUAGE>\<newline>''
       @ lit ''  <GENRE>NW</GENRE>\<newline>''
       @ lit ''  <PROVENANCE>abc123</PROVENANCE>\<newline>''
       @ lit ''  <DATE>20200101</DATE>\<newline>''
       @ lit ''  <INDEX_ID>00000001</INDEX_ID>\<newline>''
       @ lit ''  <DIRECTION>fromsource</DIRECTION>\<newline>''\<close>
    by (simp add: document_head_five demo_args_def lit_def)
  have p: \<open>prolog ?a =
       lit ''<?xml version="1.0" encoding="UTF-8"?>\<newline>''
       @ lit ''<!DOCTYPE ELISA_LRLP_CORPUS SYSTEM "elisa.lrlp.v1.1.dtd">\<newline>''
       @ lit ''<ELISA_LRLP_CORPUS source_language="eng">\<newline>''\<close>
    by (simp add: prolog_def demo_args_def lit_def)
  have t: "document_text lxml_valid demo_fs ?a ?f =
      document_head ?a (lit ''A&B_NW_abc123_20200101_00000001'')
              [lit ''A&B'', lit ''NW'', lit ''abc123'', lit ''20200101'', lit ''00000001'']
      @ concat (map tostring (segments lxml_valid ?f (lit ''A&B_NW_abc123_20200101_00000001'') 0 0
                  [lit ''Hello\<newline>'']))
      @ lit ''</DOCUMENT>\<newline>''"
    unfolding document_text_def amp_parse r by simp
  show ?thesis
    unfolding run_output_eq [OF i u] if_P [OF e]
    by (simp only: list.map concat.simps c t h p amp_segments epilog_def d append_Nil
        append_Nil2 append_assoc if_False simp_thms)
qed

end
